theory Spec2Isabelle
  imports Complex_Main "HOL-Library.Word" "HOL-Library.Log_Nat"
begin

section \<open>ReadPars: a reader of parameter text files\<close>

text \<open>
  A shallow embedding of the class \<open>ReadPars\<close> (header \<open>readpars.hpp\<close> and its source
  file). The class owns a \<open>std::ifstream\<close> for the file and a
  \<open>std::istringstream\<close> for the current line, so the first part of the theory models
  the few operations of the C++ stream library that the class calls (\<open>peek\<close>,
  \<open>operator>>\<close> into a string and into a double, \<open>std::getline\<close>), with the
  state flags they set. The second part is the class itself, function by function.
  Exceptions, failed assertions and undefined behaviour are outcomes of the model;
  every member function returns its outcome together with the updated object, because
  the caller can observe the object (and the destination variable) after an exception.
\<close>

subsection \<open>Input streams\<close>

text \<open>
  An input stream: the characters not yet extracted, and the two state flags the class
  can observe. (\<open>badbit\<close> is only set on a failure of the device, which the model does
  not have.)
\<close>

record istream =
  rest :: string
  eofbit :: bool
  failbit :: bool

definition good :: "istream \<Rightarrow> bool" where
  "good s \<longleftrightarrow> \<not> eofbit s \<and> \<not> failbit s"

definition fail :: "istream \<Rightarrow> bool" where
  "fail s \<longleftrightarrow> failbit s"

text \<open>\<open>std::isspace\<close> in the classic locale: space, and the characters 9 to 13.\<close>

definition isspace :: "char \<Rightarrow> bool" where
  "isspace c \<longleftrightarrow> (of_char c :: nat) = 32 \<or> (9 \<le> (of_char c :: nat) \<and> (of_char c :: nat) \<le> 13)"

definition isdigit :: "char \<Rightarrow> bool" where
  "isdigit c \<longleftrightarrow> 48 \<le> (of_char c :: nat) \<and> (of_char c :: nat) \<le> 57"

text \<open>
  \<open>std::isalnum\<close> in the classic locale: the ASCII digits and letters. (For a byte
  above 127 the call in \<open>readnext\<close> passes a negative \<open>char\<close>; the C library in use
  answers false there, and so does the model.)
\<close>

definition isalnum :: "char \<Rightarrow> bool" where
  "isalnum c \<longleftrightarrow> isdigit c
     \<or> (65 \<le> (of_char c :: nat) \<and> (of_char c :: nat) \<le> 90)
     \<or> (97 \<le> (of_char c :: nat) \<and> (of_char c :: nat) \<le> 122)"

text \<open>
  \<open>peek()\<close> is an unformatted input function: on a stream that is not good it sets
  \<open>failbit\<close> and returns end-of-file; otherwise it returns the next character without
  extracting it, and sets \<open>eofbit\<close> when there is none. It never skips whitespace.
  \<open>None\<close> stands for \<open>traits_type::eof()\<close>.
\<close>

definition peek :: "istream \<Rightarrow> char option \<times> istream" where
  "peek s =
     (if \<not> good s then (None, s\<lparr>failbit := True\<rparr>)
      else case rest s of
             [] \<Rightarrow> (None, s\<lparr>eofbit := True\<rparr>)
           | c # _ \<Rightarrow> (Some c, s))"

text \<open>
  \<open>stream >> str\<close> for a \<open>std::string\<close>: on a stream that is not good it sets
  \<open>failbit\<close> and leaves \<open>str\<close> alone; otherwise it skips leading whitespace, and fails
  (both flags, \<open>str\<close> alone) when nothing follows; otherwise \<open>str\<close> becomes the maximal
  run of non-whitespace characters, and \<open>eofbit\<close> is set when the run ends the buffer.
\<close>

definition extract_string :: "istream \<Rightarrow> string \<Rightarrow> istream \<times> string" where
  "extract_string s str =
     (if \<not> good s then (s\<lparr>failbit := True\<rparr>, str)
      else let r = dropWhile isspace (rest s) in
        if r = [] then (s\<lparr>rest := [], eofbit := True, failbit := True\<rparr>, str)
        else let r' = dropWhile (\<lambda>c. \<not> isspace c) r in
          (s\<lparr>rest := r', eofbit := (r' = [])\<rparr>, takeWhile (\<lambda>c. \<not> isspace c) r))"

text \<open>
  \<open>std::getline(stream, str)\<close>: on a stream that is not good it sets \<open>failbit\<close>;
  otherwise \<open>str\<close> becomes the characters before the next newline, which is extracted
  and dropped; without a newline the whole rest is taken and \<open>eofbit\<close> is set, together
  with \<open>failbit\<close> when not a single character was extracted.
\<close>

definition getline_stream :: "istream \<Rightarrow> string \<Rightarrow> istream \<times> string" where
  "getline_stream s str =
     (if \<not> good s then (s\<lparr>failbit := True\<rparr>, str)
      else let l = takeWhile (\<lambda>c. c \<noteq> CHR 0x0A) (rest s) in
        case dropWhile (\<lambda>c. c \<noteq> CHR 0x0A) (rest s) of
          [] \<Rightarrow> (s\<lparr>rest := [], eofbit := True, failbit := (l = [])\<rparr>, l)
        | _ # r \<Rightarrow> (s\<lparr>rest := r\<rparr>, l))"

subsection \<open>Reading a double from a token\<close>

text \<open>
  A \<open>double\<close> is modelled by the rational number it denotes (every finite binary64
  value is one; the sign of zero is not kept, no operation of the class observes it).
  \<open>stream >> x\<close> followed by the test that no character is left over accepts exactly the
  tokens of the form \<open>[sign] digits [. digits] [e [sign] digits]\<close> with at least one
  digit in the mantissa, as the GNU C++ library (the one the project is built with)
  collects them, and converts them with \<open>strtod\<close>: to the nearest binary64 value, ties
  to even. A value that overflows the range sets \<open>failbit\<close>, so the extraction never
  yields an infinity or a NaN.
\<close>

definition digit_val :: "char \<Rightarrow> int" where
  "digit_val c = of_char c - 48"

definition digits_val :: "string \<Rightarrow> int" where
  "digits_val ds = foldl (\<lambda>a c. 10 * a + digit_val c) 0 ds"

definition strip_sign :: "string \<Rightarrow> bool \<times> string" where
  "strip_sign s =
     (case s of
        [] \<Rightarrow> (False, s)
      | c # r \<Rightarrow> if c = CHR ''-'' then (True, r) else if c = CHR ''+'' then (False, r) else (False, s))"

definition parse_exponent :: "string \<Rightarrow> int option" where
  "parse_exponent s =
     (case s of
        [] \<Rightarrow> Some 0
      | c # r \<Rightarrow>
          if c = CHR ''e'' \<or> c = CHR ''E'' then
            (let (neg, ds) = strip_sign r in
               if ds \<noteq> [] \<and> list_all isdigit ds
               then Some (if neg then - digits_val ds else digits_val ds)
               else None)
          else None)"

definition pow10 :: "int \<Rightarrow> rat" where
  "pow10 k = (if 0 \<le> k then 10 ^ nat k else 1 / 10 ^ nat (- k))"

definition pow2 :: "int \<Rightarrow> rat" where
  "pow2 k = (if 0 \<le> k then 2 ^ nat k else 1 / 2 ^ nat (- k))"

text \<open>The exact value of a decimal token, when it has the form above.\<close>

definition parse_decimal :: "string \<Rightarrow> rat option" where
  "parse_decimal s =
     (let (neg, s1) = strip_sign s;
          ip = takeWhile isdigit s1;
          s2 = dropWhile isdigit s1;
          (fp, s3) = (case s2 of
                        [] \<Rightarrow> ([], s2)
                      | c # r \<Rightarrow> if c = CHR ''.'' then (takeWhile isdigit r, dropWhile isdigit r)
                                 else ([], s2))
      in if ip = [] \<and> fp = [] then None
         else case parse_exponent s3 of
                None \<Rightarrow> None
              | Some e \<Rightarrow>
                  let m = of_int (digits_val (ip @ fp)) * pow10 (e - int (length fp))
                  in Some (if neg then - m else m))"

text \<open>
  Rounding to the nearest binary64 value, ties to even; \<open>None\<close> on overflow.
  \<open>ilog2 a\<close> is the exponent \<open>k\<close> with \<open>2^k \<le> a < 2^(k+1)\<close>, found from
  the bit lengths of numerator and denominator; a binary64 value has 53 significant
  bits, exponents from \<open>-1022\<close> (below that the spacing stays \<open>2^-1074\<close>) to \<open>1023\<close>.
\<close>

definition ilog2 :: "rat \<Rightarrow> int" where
  "ilog2 a = (let (p, q) = quotient_of a; k = bitlen p - bitlen q
              in if pow2 k \<le> a then k else k - 1)"

definition round_even :: "rat \<Rightarrow> int" where
  "round_even r =
     (let f = \<lfloor>r\<rfloor>; d = r - of_int f
      in if d < 1 / 2 then f else if 1 / 2 < d then f + 1 else if even f then f else f + 1)"

definition binary64 :: "rat \<Rightarrow> rat option" where
  "binary64 r =
     (if r = 0 then Some 0
      else let a = \<bar>r\<bar>;
               e = max (ilog2 a) (- 1022);
               u = pow2 (e - 52);
               v = of_int (round_even (a / u)) * u
           in if 1024 \<le> ilog2 v then None else Some (if r < 0 then - v else v))"

definition parse_double :: "string \<Rightarrow> rat option" where
  "parse_double s = (case parse_decimal s of None \<Rightarrow> None | Some r \<Rightarrow> binary64 r)"

definition isfinite :: "rat \<Rightarrow> bool" where
  "isfinite x \<longleftrightarrow> True"

subsection \<open>Destination types\<close>

text \<open>
  \<open>read\<close>, \<open>readvalue\<close> and \<open>readvalues\<close> are templates over the destination type
  \<open>T\<close>. The model carries \<open>T\<close> as a tag and covers the instances \<open>bool\<close>, \<open>int\<close>,
  \<open>unsigned int\<close> (both 32 bits wide) and \<open>double\<close>. The three type traits the
  template tests are functions of the tag: in C++ \<open>bool\<close> is an integral and an unsigned
  type.
\<close>

datatype ctype = TBool | TInt | TUnsigned | TDouble

datatype cvalue = BoolV bool | IntV "32 word" | UnsignedV "32 word" | DoubleV rat

fun is_integral :: "ctype \<Rightarrow> bool" where
  "is_integral TBool = True"
| "is_integral TInt = True"
| "is_integral TUnsigned = True"
| "is_integral TDouble = False"

fun is_unsigned :: "ctype \<Rightarrow> bool" where
  "is_unsigned TBool = True"
| "is_unsigned TInt = False"
| "is_unsigned TUnsigned = True"
| "is_unsigned TDouble = False"

fun is_same_bool :: "ctype \<Rightarrow> bool" where
  "is_same_bool TBool = True"
| "is_same_bool TInt = False"
| "is_same_bool TUnsigned = False"
| "is_same_bool TDouble = False"

text \<open>
  \<open>static_cast<T>(x)\<close> of a double: to \<open>bool\<close> it tests for nonzero; to an integer type
  it truncates towards zero, and the behaviour is undefined (\<open>None\<close>) when the truncated
  value is not representable in \<open>T\<close>.
\<close>

definition trunc :: "rat \<Rightarrow> int" where
  "trunc x = (if 0 \<le> x then \<lfloor>x\<rfloor> else \<lceil>x\<rceil>)"

fun static_cast :: "ctype \<Rightarrow> rat \<Rightarrow> cvalue option" where
  "static_cast TBool x = Some (BoolV (x \<noteq> 0))"
| "static_cast TInt x =
     (if - (2 ^ 31) \<le> trunc x \<and> trunc x < 2 ^ 31 then Some (IntV (word_of_int (trunc x))) else None)"
| "static_cast TUnsigned x =
     (if 0 \<le> trunc x \<and> trunc x < 2 ^ 32 then Some (UnsignedV (word_of_int (trunc x))) else None)"
| "static_cast TDouble x = Some (DoubleV x)"

text \<open>
  The number a stored value stands for; an \<open>int\<close> is read as two's complement, an
  \<open>unsigned int\<close> as it is.
\<close>

fun number :: "cvalue \<Rightarrow> rat" where
  "number (BoolV b) = (if b then 1 else 0)"
| "number (IntV w) = of_int (sint w)"
| "number (UnsignedV w) = of_int (uint w)"
| "number (DoubleV x) = x"

subsection \<open>The class\<close>

text \<open>
  The members of \<open>ReadPars\<close>. The \<open>std::ifstream\<close> member (\<open>file\<close> in the source) is the stream \<open>infile\<close>
  together with \<open>is_open\<close>; the \<open>std::istringstream\<close> member is the stream \<open>line\<close>
  together with \<open>line_str\<close>, the whole text \<open>line.str()\<close> returns.
\<close>

record ReadPars =
  filename :: string
  infile :: istream
  is_open :: bool
  count :: "64 word"
  empty :: bool
  comment :: bool
  line :: istream
  line_str :: string
  name :: string

text \<open>
  How a call ends: it returns, it throws a \<open>std::runtime_error\<close> with a message, the
  library throws a \<open>std::length_error\<close> with a message or a \<open>std::bad_alloc\<close>, an
  \<open>assert\<close> fails, or the behaviour is undefined.
\<close>

datatype outcome = Done | Throw string | LengthError string | BadAlloc | AssertFail | Undefined

text \<open>
  A checker is a \<open>std::function\<close> from the value to an error message, or \<open>nullptr\<close>.
\<close>

type_synonym checker = "(cvalue \<Rightarrow> string) option"
type_synonym vchecker = "(cvalue list \<Rightarrow> string) option"

text \<open>The files of the system: the content of every path that can be opened.\<close>

type_synonym files = "string \<rightharpoonup> string"

text \<open>
  The memory of the system, as \<open>std::vector::reserve\<close> meets it: \<open>mem T n\<close> says
  that a vector of \<open>T\<close> gets room for \<open>n\<close> elements, because it has the capacity
  already or because the allocator grants it.
\<close>

type_synonym memory = "ctype \<Rightarrow> nat \<Rightarrow> bool"

text \<open>
  \<open>std::vector<T>::max_size()\<close> in the GNU library on a 64-bit system: the greatest
  \<open>ptrdiff_t\<close> divided by the size of an element (4 bytes for \<open>int\<close> and
  \<open>unsigned\<close>, 8 for \<open>double\<close>); \<open>std::vector<bool>\<close> is the specialisation that
  packs 64 elements into a word, and its bound is the greatest \<open>ptrdiff_t\<close> rounded
  down to whole words.
\<close>

fun max_size :: "ctype \<Rightarrow> nat" where
  "max_size TBool = 2 ^ 63 - 64"
| "max_size TInt = (2 ^ 63 - 1) div 4"
| "max_size TUnsigned = (2 ^ 63 - 1) div 4"
| "max_size TDouble = (2 ^ 63 - 1) div 8"

definition new_istream :: "istream" where
  "new_istream = \<lparr>rest = [], eofbit = False, failbit = False\<rparr>"

text \<open>The constructor.\<close>

definition new_ReadPars :: "string \<Rightarrow> ReadPars" where
  "new_ReadPars fname =
     \<lparr>filename = fname, infile = new_istream, is_open = False, count = 0,
      empty = False, comment = False, line = new_istream, line_str = [], name = []\<rparr>"

text \<open>\<open>std::to_string\<close> of an unsigned number: its decimal digits.\<close>

fun to_string :: "nat \<Rightarrow> string" where
  "to_string n =
     (if n < 10 then [char_of (48 + n)]
      else to_string (n div 10) @ [char_of (48 + n mod 10)])"

declare to_string.simps [simp del]

definition errorOpenFile :: "ReadPars \<Rightarrow> string" where
  "errorOpenFile rp = ''Unable to open file '' @ filename rp"

definition errorEmptyFile :: "ReadPars \<Rightarrow> string" where
  "errorEmptyFile rp = ''File '' @ filename rp @ '' is empty''"

definition errorReadName :: "ReadPars \<Rightarrow> string" where
  "errorReadName rp =
     ''Could not read parameter name in line '' @ to_string (unat (count rp))
       @ '' of file '' @ filename rp"

definition errorNoValue :: "ReadPars \<Rightarrow> string" where
  "errorNoValue rp =
     ''No value for parameter '' @ name rp @ '' in line '' @ to_string (unat (count rp))
       @ '' of file '' @ filename rp"

definition errorReadValue :: "ReadPars \<Rightarrow> string" where
  "errorReadValue rp =
     ''Could not read value for parameter '' @ name rp @ '' in line ''
       @ to_string (unat (count rp)) @ '' of file '' @ filename rp"

definition errorParseValue :: "ReadPars \<Rightarrow> string" where
  "errorParseValue rp =
     ''Invalid value type for parameter '' @ name rp @ '' in line ''
       @ to_string (unat (count rp)) @ '' of file '' @ filename rp"

definition errorTooManyValues :: "ReadPars \<Rightarrow> string" where
  "errorTooManyValues rp =
     ''Too many values for parameter '' @ name rp @ '' in line ''
       @ to_string (unat (count rp)) @ '' of file '' @ filename rp"

definition errorTooFewValues :: "ReadPars \<Rightarrow> string" where
  "errorTooFewValues rp =
     ''Too few values for parameter '' @ name rp @ '' in line ''
       @ to_string (unat (count rp)) @ '' of file '' @ filename rp"

definition errorInvalidParameter :: "ReadPars \<Rightarrow> string" where
  "errorInvalidParameter rp =
     ''Invalid parameter: '' @ name rp @ '' in line '' @ to_string (unat (count rp))
       @ '' of file '' @ filename rp"

definition readerror :: "ReadPars \<Rightarrow> outcome" where
  "readerror rp = Throw (errorInvalidParameter rp)"

definition checkerror :: "ReadPars \<Rightarrow> string \<Rightarrow> outcome" where
  "checkerror rp error =
     (if error = [] then Done
      else Throw (''Parameter '' @ name rp @ '' '' @ error @ '' in line ''
                    @ to_string (unat (count rp)) @ '' of file '' @ filename rp))"

subsubsection \<open>Getters\<close>

definition isopen :: "ReadPars \<Rightarrow> bool" where
  "isopen rp = is_open rp"

text \<open>
  \<open>iseof\<close> and \<open>iseol\<close> are not \<open>const\<close>: \<open>peek\<close> may set a flag of the stream.
  On a file that is not open the stream buffer has no character to give.
\<close>

definition iseof :: "ReadPars \<Rightarrow> bool \<times> ReadPars" where
  "iseof rp = (let (c, f) = peek (infile rp) in (c = None, rp\<lparr>infile := f\<rparr>))"

definition iseol :: "ReadPars \<Rightarrow> bool \<times> ReadPars" where
  "iseol rp = (let (c, l) = peek (line rp) in (c = None, rp\<lparr>line := l\<rparr>))"

definition isempty :: "ReadPars \<Rightarrow> bool" where
  "isempty rp = empty rp"

definition iscomment :: "ReadPars \<Rightarrow> bool" where
  "iscomment rp = comment rp"

definition getcount :: "ReadPars \<Rightarrow> 64 word" where
  "getcount rp = count rp"

definition getfilename :: "ReadPars \<Rightarrow> string" where
  "getfilename rp = filename rp"

definition getline :: "ReadPars \<Rightarrow> string" where
  "getline rp = line_str rp"

definition getname :: "ReadPars \<Rightarrow> string" where
  "getname rp = name rp"

subsubsection \<open>Opening, reading a line, closing\<close>

text \<open>
  \<open>file.open(filename)\<close> fails, setting \<open>failbit\<close>, when the stream is already open
  or the path cannot be opened; on success the flags are cleared and the stream holds
  the content of the file.
\<close>

definition ifstream_open :: "files \<Rightarrow> ReadPars \<Rightarrow> ReadPars" where
  "ifstream_open fs rp =
     (if is_open rp then rp\<lparr>infile := (infile rp)\<lparr>failbit := True\<rparr>\<rparr>
      else case fs (filename rp) of
             None \<Rightarrow> rp\<lparr>infile := (infile rp)\<lparr>failbit := True\<rparr>\<rparr>
           | Some content \<Rightarrow>
               rp\<lparr>infile := \<lparr>rest = content, eofbit = False, failbit = False\<rparr>, is_open := True\<rparr>)"

definition open_file :: "files \<Rightarrow> ReadPars \<Rightarrow> outcome \<times> ReadPars" where
  "open_file fs rp =
     (let rp1 = ifstream_open fs rp in
      if \<not> isopen rp1 then (Throw (errorOpenFile rp1), rp1)
      else let (eof, rp2) = iseof rp1 in
        if eof then (Throw (errorEmptyFile rp2), rp2)
        else if \<not> isopen rp2 then (AssertFail, rp2)
        else let (eof', rp3) = iseof rp2 in
          if eof' then (AssertFail, rp3)
          else if count rp3 \<noteq> 0 then (AssertFail, rp3)
          else (Done, rp3))"

definition reset :: "ReadPars \<Rightarrow> ReadPars" where
  "reset rp =
     rp\<lparr>empty := False, comment := False,
        line := \<lparr>rest = [], eofbit = False, failbit = False\<rparr>, line_str := [], name := []\<rparr>"

text \<open>
  The loop of \<open>readnext\<close> over the characters of the token: the error flag it leaves.
\<close>

fun invalid_char :: "string \<Rightarrow> bool" where
  "invalid_char [] = False"
| "invalid_char (c # cs) =
     (if \<not> isalnum c \<and> c \<noteq> CHR ''.'' \<and> c \<noteq> CHR ''-'' then True else invalid_char cs)"

definition readnext :: "istream \<Rightarrow> string \<Rightarrow> bool \<times> istream \<times> string" where
  "readnext l input =
     (let (l1, input1) = extract_string l input;
          error = fail l1;
          error1 = (if \<not> error then invalid_char input1 else error)
      in (\<not> error1, l1, input1))"

definition readline :: "ReadPars \<Rightarrow> outcome \<times> ReadPars" where
  "readline rp =
     (if \<not> isopen rp then (AssertFail, rp)
      else let (eof, rp1) = iseof rp in
        if eof then (AssertFail, rp1)
        else
          let rp2 = reset rp1;
              (f, temp) = getline_stream (infile rp2) [];
              rp3 = rp2\<lparr>infile := f\<rparr>;
              rp4 = rp3\<lparr>empty := (temp = [])\<rparr>;
              rp5 = rp4\<lparr>comment := (case temp of [] \<Rightarrow> False | c # _ \<Rightarrow> c = CHR ''#'')\<rparr>;
              rp6 = rp5\<lparr>line := (line rp5)\<lparr>rest := temp\<rparr>, line_str := temp\<rparr>;
              rp7 = rp6\<lparr>count := count rp6 + 1\<rparr>
          in if empty rp7 \<or> comment rp7 then (Done, rp7)
             else
               let (ok, l, nm) = readnext (line rp7) (name rp7);
                   rp8 = rp7\<lparr>line := l, name := nm\<rparr>
               in if \<not> ok then (Throw (errorReadName rp8), rp8)
                  else let (eol, rp9) = iseol rp8 in
                    if eol then (Throw (errorNoValue rp9), rp9) else (Done, rp9))"

text \<open>
  \<open>file.close()\<close> sets \<open>failbit\<close> when the stream is not open.
\<close>

definition close :: "ReadPars \<Rightarrow> ReadPars" where
  "close rp =
     (if is_open rp then rp\<lparr>infile := (infile rp)\<lparr>rest := []\<rparr>, is_open := False\<rparr>
      else rp\<lparr>infile := (infile rp)\<lparr>failbit := True\<rparr>\<rparr>)"

subsubsection \<open>Reading values\<close>

text \<open>
  \<open>read\<close> takes the destination by reference. The model returns the write it makes:
  \<open>Some v\<close> when the assignment \<open>value = static_cast<T>(x)\<close> was executed, \<open>None\<close>
  when the call ended before it. The body of \<open>read\<close> is split in two: \<open>read\<close>
  fetches the token \<open>temp\<close> from the line, and \<open>convert\<close> is everything the source
  does with \<open>temp\<close> after that (parsing, the checks on the type, the assignment, the
  caller's check).
\<close>

definition convert :: "ctype \<Rightarrow> checker \<Rightarrow> ReadPars \<Rightarrow> string \<Rightarrow> outcome \<times> cvalue option" where
  "convert T check rp temp =
     (case parse_double temp of
        None \<Rightarrow> (Throw (errorParseValue rp), None)
      | Some x \<Rightarrow>
          if is_integral T \<and> (\<not> isfinite x \<or> of_int \<lfloor>x\<rfloor> \<noteq> x)
            then (Throw (errorParseValue rp), None)
          else if is_unsigned T \<and> x < 0
            then (Throw (errorParseValue rp), None)
          else if is_same_bool T \<and> 1 < x
            then (Throw (errorParseValue rp), None)
          else (case static_cast T x of
                  None \<Rightarrow> (Undefined, None)
                | Some v \<Rightarrow>
                    let error = (case check of Some f \<Rightarrow> f v | None \<Rightarrow> [])
                    in (checkerror rp error, Some v)))"

definition read :: "ctype \<Rightarrow> checker \<Rightarrow> ReadPars \<Rightarrow> outcome \<times> cvalue option \<times> ReadPars" where
  "read T check rp =
     (let (ok, l, temp) = readnext (line rp) [];
          rp1 = rp\<lparr>line := l\<rparr>
      in if \<not> ok then (Throw (errorReadValue rp1), None, rp1)
         else let (r, w) = convert T check rp1 temp in (r, w, rp1))"

text \<open>
  The destination after a call that made the write \<open>w\<close>.
\<close>

definition assign :: "cvalue \<Rightarrow> cvalue option \<Rightarrow> cvalue" where
  "assign old w = (case w of None \<Rightarrow> old | Some v \<Rightarrow> v)"

definition readvalue :: "ctype \<Rightarrow> checker \<Rightarrow> cvalue \<Rightarrow> ReadPars \<Rightarrow> outcome \<times> cvalue \<times> ReadPars" where
  "readvalue T check val rp =
     (let (r, w, rp1) = read T check rp;
          val1 = assign val w
      in if r \<noteq> Done then (r, val1, rp1)
         else let (eol, rp2) = iseol rp1 in
           if \<not> eol then (Throw (errorTooManyValues rp2), val1, rp2)
           else (Done, val1, rp2))"

text \<open>
  The \<open>while\<close> loop of \<open>readvalues\<close>, on the counter \<open>i\<close>, the vector \<open>values\<close>
  and the object. The count \<open>n\<close> and the counter \<open>i\<close> are \<open>size_t\<close>, 64 bits wide.
  The vector has room for \<open>n\<close> elements when the loop starts and \<open>push_back\<close> is
  reached with fewer than \<open>n\<close> elements only, so it never allocates. The loop ends
  because every pass that does not throw extracts a token from the line.
\<close>

function readvalues_loop ::
  "ctype \<Rightarrow> 64 word \<Rightarrow> checker \<Rightarrow> 64 word \<Rightarrow> cvalue list \<Rightarrow> ReadPars
     \<Rightarrow> outcome \<times> 64 word \<times> cvalue list \<times> ReadPars" where
  "readvalues_loop T n check i vals rp =
     (let (eol, rp1) = iseol rp in
      if eol then (Done, i, vals, rp1)
      else if i = n then (Throw (errorTooManyValues rp1), i, vals, rp1)
      else let (r, w, rp2) = read T check rp1 in
        case (r, w) of
          (Done, Some v) \<Rightarrow> readvalues_loop T n check (i + 1) (vals @ [v]) rp2
        | _ \<Rightarrow> (r, i, vals, rp2))"
  by pat_completeness auto
termination
proof (relation "measure (\<lambda>(T, n, check, i, vals, rp). length (rest (line rp)))", goal_cases)
  case 1
  show ?case by simp
next
  case (2 T n check i vals rp x eol rp1 x2 r y w rp2 x1a x2a v)
  from 2 have same: "rest (line rp1) = rest (line rp)"
    by (auto simp: iseol_def peek_def split: if_splits list.splits prod.splits)
  from 2 have rd: "read T check rp1 = (Done, Some v, rp2)"
    by simp
  obtain ok l temp where rn: "readnext (line rp1) [] = (ok, l, temp)"
    by (metis prod_cases3)
  with rd have ok: ok and l: "line rp2 = l"
    by (auto simp: read_def Let_def split: if_splits prod.splits)
  obtain l1 t1 where ex: "extract_string (line rp1) [] = (l1, t1)"
    by (metis prod.exhaust)
  with rn ok have l1: "l = l1" and nofail: "\<not> failbit l1"
    by (auto simp: readnext_def Let_def fail_def split: if_splits)
  let ?r = "dropWhile isspace (rest (line rp1))"
  from ex nofail have ne: "?r \<noteq> []"
    and r1: "rest l1 = dropWhile (\<lambda>c. \<not> isspace c) ?r"
    by (auto simp: extract_string_def Let_def split: if_splits)
  from ne have "\<not> isspace (hd ?r)"
    by (rule hd_dropWhile)
  with ne obtain c cs where r: "?r = c # cs" and c: "\<not> isspace c"
    by (cases ?r) auto
  have "length (dropWhile (\<lambda>c. \<not> isspace c) cs) \<le> length cs"
    by (rule length_dropWhile_le)
  with r c r1 have "length (rest l1) < length ?r"
    by simp
  also have "\<dots> \<le> length (rest (line rp1))"
    by (rule length_dropWhile_le)
  finally show ?case
    using same l l1 by simp
qed

declare readvalues_loop.simps [simp del]

text \<open>
  \<open>readvalues\<close> itself: the assertion on \<open>n\<close>; \<open>values.clear()\<close>;
  \<open>values.reserve(n)\<close>, which throws \<open>std::length_error\<close> when \<open>n\<close> is above
  \<open>max_size()\<close> and \<open>std::bad_alloc\<close> when the system has no room for \<open>n\<close> elements,
  in both cases before anything is read and with the vector already cleared; the loop;
  the test for too few values; the assertion on the size of the vector (the one on
  \<open>i\<close> repeats the test before it); and the check of the whole vector. The vector is
  the caller's: it is returned as the call leaves it, also when the call throws.
\<close>

definition readvalues ::
  "memory \<Rightarrow> ctype \<Rightarrow> 64 word \<Rightarrow> checker \<Rightarrow> vchecker \<Rightarrow> cvalue list \<Rightarrow> ReadPars
     \<Rightarrow> outcome \<times> cvalue list \<times> ReadPars" where
  "readvalues mem T n check checks vals rp =
     (if n = 0 then (AssertFail, vals, rp)
      else if max_size T < unat n then (LengthError ''vector::reserve'', [], rp)
      else if \<not> mem T (unat n) then (BadAlloc, [], rp)
      else let (r, i, vals1, rp1) = readvalues_loop T n check 0 [] rp in
        if r \<noteq> Done then (r, vals1, rp1)
        else if i \<noteq> n then (Throw (errorTooFewValues rp1), vals1, rp1)
        else if length vals1 \<noteq> unat n then (AssertFail, vals1, rp1)
        else let error = (case checks of Some f \<Rightarrow> f vals1 | None \<Rightarrow> [])
             in (checkerror rp1 error, vals1, rp1))"

text \<open>
  A call that gets past \<open>values.reserve(n)\<close>: the count is within \<open>max_size()\<close> and
  the system has the room.
\<close>

definition reserved :: "memory \<Rightarrow> ctype \<Rightarrow> 64 word \<Rightarrow> bool" where
  "reserved mem T n \<longleftrightarrow> unat n \<le> max_size T \<and> mem T (unat n)"

subsection \<open>Lines and tokens\<close>

text \<open>
  The vocabulary of the statements below. A token is a non-empty run of characters
  without whitespace; a blank is a run of whitespace; a rest of a line is delimited
  when it is empty or starts with whitespace (so that a token before it ends there);
  \<open>join\<close> writes a line of tokens, each after its own separator.
\<close>

definition blank :: "string \<Rightarrow> bool" where
  "blank w \<longleftrightarrow> list_all isspace w"

definition token :: "string \<Rightarrow> bool" where
  "token t \<longleftrightarrow> t \<noteq> [] \<and> list_all (\<lambda>c. \<not> isspace c) t"

definition delimited :: "string \<Rightarrow> bool" where
  "delimited r \<longleftrightarrow> (case r of [] \<Rightarrow> True | c # _ \<Rightarrow> isspace c)"

fun join :: "(string \<times> string) list \<Rightarrow> string" where
  "join [] = []"
| "join ((w, t) # wts) = w @ t @ join wts"

text \<open>
  A line stream as \<open>readline\<close> and the reads leave it while nothing has failed:
  \<open>eofbit\<close> is set exactly when the buffer is used up.
\<close>

definition ready :: "istream \<Rightarrow> bool" where
  "ready l \<longleftrightarrow> \<not> failbit l \<and> (eofbit l \<longleftrightarrow> rest l = [])"

text \<open>
  A line of separated tokens: every token comes after a non-empty blank, as the values
  after a parameter name do.
\<close>

definition separated :: "(string \<times> string) list \<Rightarrow> bool" where
  "separated wts \<longleftrightarrow> list_all (\<lambda>(w, t). w \<noteq> [] \<and> blank w \<and> token t) wts"

text \<open>
  The token \<open>t\<close> reads cleanly as \<open>v\<close>: \<open>readnext\<close> accepts its characters, and
  \<open>convert\<close> parses it, lets it pass the checks on the type and the caller's check,
  and stores \<open>v\<close>.
\<close>

definition clean :: "ctype \<Rightarrow> checker \<Rightarrow> ReadPars \<Rightarrow> string \<Rightarrow> cvalue \<Rightarrow> bool" where
  "clean T check rp t v \<longleftrightarrow> \<not> invalid_char t \<and> convert T check rp t = (Done, Some v)"

text \<open>The next token of a stream: what follows its leading whitespace, up to the next whitespace.\<close>

definition next_token :: "istream \<Rightarrow> string" where
  "next_token l = takeWhile (\<lambda>c. \<not> isspace c) (dropWhile isspace (rest l))"

subsection \<open>The checkers of the example program\<close>

text \<open>
  The three checker templates of \<open>MAIN.cpp\<close>, on the number a value stands for: each
  returns the empty string for a valid value and the reason otherwise.
\<close>

definition checkpositive :: "cvalue \<Rightarrow> string" where
  "checkpositive x = (if 0 \<le> number x then [] else ''must be positive'')"

definition checkstrictpos :: "cvalue \<Rightarrow> string" where
  "checkstrictpos x = (if 0 < number x then [] else ''must be strictly positive'')"

definition checkprop :: "cvalue \<Rightarrow> string" where
  "checkprop x = (if 0 \<le> number x \<and> number x \<le> 1 then [] else ''must be between zero and one'')"

subsection \<open>Sessions\<close>

text \<open>
  A session is a sequence of calls of the public operations on one reader, as a driver
  such as \<open>doMain\<close> makes them, on a system with the files \<open>fs\<close> and the memory
  \<open>mem\<close>. Every \<open>Readvalue\<close> and \<open>Readvalues\<close> call reads
  into a variable of its own, whose content before the call is \<open>g\<close> (the drivers
  declare their destinations without initialising them).
\<close>

datatype call =
    Open
  | Readline
  | Readvalue ctype checker
  | Readvalues ctype "64 word" checker vchecker
  | Readerror
  | Close

datatype stored = Scalar cvalue | Vector "cvalue list"

text \<open>
  One call: its outcome, what it stored, and the reader after it.
\<close>

fun step ::
  "files \<Rightarrow> memory \<Rightarrow> cvalue \<Rightarrow> call \<Rightarrow> ReadPars \<Rightarrow> outcome \<times> stored list \<times> ReadPars" where
  "step fs mem g Open rp = (let (r, rp') = open_file fs rp in (r, [], rp'))"
| "step fs mem g Readline rp = (let (r, rp') = readline rp in (r, [], rp'))"
| "step fs mem g (Readvalue T check) rp =
     (let (r, v, rp') = readvalue T check g rp in (r, [Scalar v], rp'))"
| "step fs mem g (Readvalues T n check checks) rp =
     (let (r, vs, rp') = readvalues mem T n check checks [g] rp in (r, [Vector vs], rp'))"
| "step fs mem g Readerror rp = (readerror rp, [], rp)"
| "step fs mem g Close rp = (Done, [], close rp)"

text \<open>
  A run ends at the first call that does not return, as the exception leaves the
  driver. It yields the values stored by the calls that returned, in order, the outcome
  of the last call made, and the line count at the end.
\<close>

fun run ::
  "files \<Rightarrow> memory \<Rightarrow> cvalue \<Rightarrow> call list \<Rightarrow> ReadPars \<Rightarrow> stored list \<times> outcome \<times> 64 word" where
  "run fs mem g [] rp = ([], Done, getcount rp)"
| "run fs mem g (c # cs) rp =
     (case step fs mem g c rp of
        (Done, s, rp') \<Rightarrow> (let (ss, r, k) = run fs mem g cs rp' in (s @ ss, r, k))
      | (r, s, rp') \<Rightarrow> ([], r, getcount rp'))"

text \<open>
  Two lines of the example file of the repository, its first and its last parameter,
  and the calls \<open>doMain\<close> makes to read them.
\<close>

definition example_content :: string where
  "example_content = ''ngenes 4'' @ [CHR 0x0A] @ ''genes 1.0 1.2 3.5 2.0''"

definition example_calls :: "call list" where
  "example_calls =
     [Open, Readline, Readvalue TInt (Some checkstrictpos),
      Readline, Readvalues TDouble 4 (Some checkstrictpos) None, Close]"

text \<open>
  The session after \<open>open()\<close> and one \<open>readline()\<close> on a freshly constructed reader
  of the file \<open>parameters.txt\<close> with the given content: the examples below start here.
\<close>

definition first_line :: "string \<Rightarrow> ReadPars" where
  "first_line content =
     snd (readline (snd (open_file [''parameters.txt'' \<mapsto> content] (new_ReadPars ''parameters.txt''))))"

section \<open>Properties\<close>

subsection \<open>Reading one token\<close>

lemma error_line_update [simp]:
  "errorReadValue (rp\<lparr>line := l\<rparr>) = errorReadValue rp"
  "errorParseValue (rp\<lparr>line := l\<rparr>) = errorParseValue rp"
  "errorTooManyValues (rp\<lparr>line := l\<rparr>) = errorTooManyValues rp"
  "errorTooFewValues (rp\<lparr>line := l\<rparr>) = errorTooFewValues rp"
  "errorNoValue (rp\<lparr>line := l\<rparr>) = errorNoValue rp"
  "checkerror (rp\<lparr>line := l\<rparr>) e = checkerror rp e"
  by (simp_all add: errorReadValue_def errorParseValue_def errorTooManyValues_def
        errorTooFewValues_def errorNoValue_def checkerror_def)

lemma convert_line_update [simp]:
  "convert T check (rp\<lparr>line := l\<rparr>) t = convert T check rp t"
  by (simp add: convert_def cong: option.case_cong if_cong)

lemma dropWhile_blank_append:
  assumes "blank w" "t \<noteq> []" "\<not> isspace (hd t)"
  shows "dropWhile isspace (w @ t @ r) = t @ r"
proof -
  from assms(1) have "\<And>x. x \<in> set w \<Longrightarrow> isspace x"
    by (simp add: blank_def list_all_iff)
  then have "dropWhile isspace (w @ (t @ r)) = dropWhile isspace (t @ r)"
    by (rule dropWhile_append2)
  also from assms(2,3) have "\<dots> = t @ r"
    by (cases t) auto
  finally show ?thesis by simp
qed

lemma token_split:
  assumes "token t" "delimited r"
  shows "takeWhile (\<lambda>c. \<not> isspace c) (t @ r) = t"
    and "dropWhile (\<lambda>c. \<not> isspace c) (t @ r) = r"
proof -
  from assms(1) have all: "\<And>x. x \<in> set t \<Longrightarrow> \<not> isspace x"
    by (simp add: token_def list_all_iff)
  from assms(2) have r: "takeWhile (\<lambda>c. \<not> isspace c) r = []" "dropWhile (\<lambda>c. \<not> isspace c) r = r"
    by (cases r; simp add: delimited_def)+
  from all have "takeWhile (\<lambda>c. \<not> isspace c) (t @ r) = t @ takeWhile (\<lambda>c. \<not> isspace c) r"
    by (rule takeWhile_append2)
  with r show "takeWhile (\<lambda>c. \<not> isspace c) (t @ r) = t" by simp
  from all have "dropWhile (\<lambda>c. \<not> isspace c) (t @ r) = dropWhile (\<lambda>c. \<not> isspace c) r"
    by (rule dropWhile_append2)
  with r show "dropWhile (\<lambda>c. \<not> isspace c) (t @ r) = r" by simp
qed

lemma extract_string_token:
  assumes "good l" "rest l = w @ t @ r" "blank w" "token t" "delimited r"
  shows "extract_string l str = (l\<lparr>rest := r, eofbit := (r = [])\<rparr>, t)"
proof -
  from assms(4) have t: "t \<noteq> []" "\<not> isspace (hd t)"
    by (cases t; simp add: token_def)+
  with assms(3) have d: "dropWhile isspace (rest l) = t @ r"
    unfolding assms(2) by (rule dropWhile_blank_append)
  show ?thesis
    using assms(1) t(1) token_split [OF assms(4,5)]
    by (simp add: extract_string_def d Let_def)
qed

lemma readnext_token:
  assumes "good l" "rest l = w @ t @ r" "blank w" "token t" "delimited r"
  shows "readnext l str = (\<not> invalid_char t, l\<lparr>rest := r, eofbit := (r = [])\<rparr>, t)"
  using assms(1) by (simp add: readnext_def extract_string_token [OF assms] fail_def good_def)

lemma read_token:
  assumes "good (line rp)" "rest (line rp) = w @ t @ r" "blank w" "token t" "delimited r"
  shows "read T check rp =
           (if invalid_char t then Throw (errorReadValue rp) else fst (convert T check rp t),
            if invalid_char t then None else snd (convert T check rp t),
            rp\<lparr>line := (line rp)\<lparr>rest := r, eofbit := (r = [])\<rparr>\<rparr>)"
  by (simp add: read_def readnext_token [OF assms] split: prod.splits)

lemma read_no_token:
  assumes "good (line rp)" "blank (rest (line rp))"
  shows "read T check rp =
           (Throw (errorReadValue rp), None,
            rp\<lparr>line := (line rp)\<lparr>rest := [], eofbit := True, failbit := True\<rparr>\<rparr>)"
proof -
  from assms(2) have "\<And>x. x \<in> set (rest (line rp)) \<Longrightarrow> isspace x"
    by (simp add: blank_def list_all_iff)
  then have "dropWhile isspace (rest (line rp)) = []"
    by simp
  with assms(1) show ?thesis
    by (simp add: read_def readnext_def extract_string_def fail_def)
qed

lemma iseol_good:
  assumes "good (line rp)"
  shows "iseol rp = (rest (line rp) = [],
                      if rest (line rp) = [] then rp\<lparr>line := (line rp)\<lparr>eofbit := True\<rparr>\<rparr> else rp)"
  using assms by (cases "rest (line rp)") (simp_all add: iseol_def peek_def)

lemma iseol_not_good:
  assumes "\<not> good (line rp)"
  shows "iseol rp = (True, rp\<lparr>line := (line rp)\<lparr>failbit := True\<rparr>\<rparr>)"
  using assms by (simp add: iseol_def peek_def)


subsection \<open>Reading a line of tokens\<close>

lemma clean_line_update [simp]: "clean T check (rp\<lparr>line := l\<rparr>) = clean T check rp"
  by (simp add: clean_def fun_eq_iff)

lemma delimited_join:
  assumes "separated wts" "delimited r"
  shows "delimited (join wts @ r)"
proof (cases wts)
  case Nil
  with assms(2) show ?thesis by simp
next
  case (Cons p ps)
  obtain w t where p: "p = (w, t)" by (cases p)
  with Cons assms(1) have "w \<noteq> []" "blank w"
    by (simp_all add: separated_def)
  then obtain c cs where "w = c # cs" "isspace c"
    by (cases w) (simp_all add: blank_def)
  with Cons p show ?thesis
    by (simp add: delimited_def)
qed

lemma ready_good: "ready l \<Longrightarrow> rest l \<noteq> [] \<Longrightarrow> good l"
  by (simp add: ready_def good_def)

lemma ready_collapse:
  assumes "ready (line rp)" "rest (line rp) = r"
  shows "rp\<lparr>line := \<lparr>rest = r, eofbit = (r = []), failbit = False\<rparr>\<rparr> = rp"
proof -
  from assms have "line rp = \<lparr>rest = r, eofbit = (r = []), failbit = False\<rparr>"
    by (simp add: ready_def)
  then show ?thesis
    by (metis ReadPars.surjective ReadPars.update_convs(7))
qed

text \<open>The counter of the loop stays below the count, so it does not wrap.\<close>

lemma size_t_Suc: "unat (i :: 64 word) < unat (n :: 64 word) \<Longrightarrow> unat (i + 1) = unat i + 1"
proof -
  assume a: "unat i < unat n"
  have "unat n < 2 ^ 64" using unsigned_less [of n] by simp
  with a have "unat i + 1 < 2 ^ 64" by simp
  then show ?thesis
    by (simp add: unat_word_ariths)
qed

lemma size_t_of_nat: "k \<le> unat (n :: 64 word) \<Longrightarrow> unat (of_nat k :: 64 word) = k"
proof -
  assume a: "k \<le> unat n"
  have "unat n < 2 ^ 64" using unsigned_less [of n] by simp
  with a have "k < 2 ^ 64" by simp
  then show ?thesis
    by (simp add: unat_of_nat)
qed

lemma size_t_eq: "k \<le> unat (n :: 64 word) \<Longrightarrow> (of_nat k = n) = (k = unat n)"
  using size_t_of_nat [of k n] by auto

lemma readvalues_loop_step:
  assumes "good (line rp)" "rest (line rp) = w @ t @ r" "blank w" "token t" "delimited r"
    and "clean T check rp t v" "i \<noteq> n"
  shows "readvalues_loop T n check i vals rp =
         readvalues_loop T n check (i + 1) (vals @ [v])
           (rp\<lparr>line := \<lparr>rest = r, eofbit = (r = []), failbit = False\<rparr>\<rparr>)"
proof -
  from assms(4) have "t \<noteq> []" by (simp add: token_def)
  with assms(2) have ne: "rest (line rp) \<noteq> []" by simp
  with assms(1) have eol: "iseol rp = (False, rp)"
    by (simp add: iseol_good)
  from assms(6) have rd: "read T check rp =
      (Done, Some v, rp\<lparr>line := (line rp)\<lparr>rest := r, eofbit := (r = [])\<rparr>\<rparr>)"
    by (simp add: read_token [OF assms(1-5)] clean_def)
  from assms(1) have "(line rp)\<lparr>rest := r, eofbit := (r = [])\<rparr> = \<lparr>rest = r, eofbit = (r = []), failbit = False\<rparr>"
    by (simp add: good_def)
  with rd have rd': "read T check rp =
      (Done, Some v, rp\<lparr>line := \<lparr>rest = r, eofbit = (r = []), failbit = False\<rparr>\<rparr>)"
    by simp
  show ?thesis
    by (subst readvalues_loop.simps) (simp add: eol rd' assms(7))
qed

lemma readvalues_loop_tokens:
  assumes "ready (line rp)" "rest (line rp) = join wts @ r" "separated wts" "delimited r"
    and "list_all2 (clean T check rp) (map snd wts) vs" "unat i + length wts \<le> unat n"
  shows "readvalues_loop T n check i vals rp =
         readvalues_loop T n check (i + of_nat (length wts)) (vals @ vs)
           (rp\<lparr>line := \<lparr>rest = r, eofbit = (r = []), failbit = False\<rparr>\<rparr>)"
  using assms
proof (induction wts arbitrary: i vals vs rp)
  case Nil
  then show ?case by (simp add: ready_collapse)
next
  case (Cons p wts)
  obtain w t where p: "p = (w, t)" by (cases p)
  from Cons.prems(5) p obtain v vs' where vs: "vs = v # vs'"
    and v: "clean T check rp t v" and vs': "list_all2 (clean T check rp) (map snd wts) vs'"
    by (auto simp: list_all2_Cons1)
  from Cons.prems(3) p have w: "w \<noteq> []" "blank w" and t: "token t" and sep: "separated wts"
    by (simp_all add: separated_def)
  let ?r = "join wts @ r"
  let ?rp = "rp\<lparr>line := \<lparr>rest = ?r, eofbit = (?r = []), failbit = False\<rparr>\<rparr>"
  from Cons.prems(2) p have rest: "rest (line rp) = w @ t @ ?r" by simp
  with w have "rest (line rp) \<noteq> []" by simp
  with Cons.prems(1) have g: "good (line rp)" by (rule ready_good)
  from sep Cons.prems(4) have d: "delimited ?r" by (rule delimited_join)
  from Cons.prems(6) have less: "unat i < unat n" by simp
  then have "i \<noteq> n" by auto
  with g rest w(2) t d v
  have "readvalues_loop T n check i vals rp = readvalues_loop T n check (i + 1) (vals @ [v]) ?rp"
    by (rule readvalues_loop_step)
  also have "\<dots> = readvalues_loop T n check (i + 1 + of_nat (length wts)) ((vals @ [v]) @ vs')
           (?rp\<lparr>line := \<lparr>rest = r, eofbit = (r = []), failbit = False\<rparr>\<rparr>)"
  proof (rule Cons.IH)
    show "ready (line ?rp)" by (simp add: ready_def)
    show "rest (line ?rp) = join wts @ r" by simp
    show "separated wts" by (rule sep)
    show "delimited r" by (rule Cons.prems(4))
    show "list_all2 (clean T check ?rp) (map snd wts) vs'" using vs' by simp
    show "unat (i + 1) + length wts \<le> unat n"
      using Cons.prems(6) size_t_Suc [OF less] by simp
  qed
  finally show ?case by (simp add: vs ac_simps)
qed

lemma readvalues_loop_eol:
  assumes "rest (line rp) = []"
  shows "\<exists>rp'. readvalues_loop T n check i vals rp = (Done, i, vals, rp')"
proof (cases "good (line rp)")
  case True
  with assms show ?thesis
    by (subst readvalues_loop.simps) (simp add: iseol_good)
next
  case False
  then show ?thesis
    by (subst readvalues_loop.simps) (simp add: iseol_not_good)
qed

lemma readvalues_loop_full:
  assumes "good (line rp)" "rest (line rp) \<noteq> []"
  shows "readvalues_loop T n check n vals rp = (Throw (errorTooManyValues rp), n, vals, rp)"
  using assms by (subst readvalues_loop.simps) (simp add: iseol_good)

lemma readvalues_loop_fail:
  assumes "good (line rp)" "rest (line rp) \<noteq> []" "i \<noteq> n"
    and "read T check rp = (res, None, rp')"
  shows "readvalues_loop T n check i vals rp = (res, i, vals, rp')"
  using assms by (subst readvalues_loop.simps) (simp add: iseol_good split: outcome.splits)

lemma convert_None_not_Done:
  "snd (convert T check rp t) = None \<Longrightarrow> fst (convert T check rp t) \<noteq> Done"
  by (auto simp: convert_def Let_def split: option.splits if_splits)

lemma readvalues_loop_end:
  "readvalues_loop T n check i vals (rp\<lparr>line := \<lparr>rest = [], eofbit = True, failbit = False\<rparr>\<rparr>) =
     (Done, i, vals, rp\<lparr>line := \<lparr>rest = [], eofbit = True, failbit = True\<rparr>\<rparr>)"
  by (subst readvalues_loop.simps) (simp add: iseol_not_good good_def)

lemma readvalues_reserved:
  assumes "n \<noteq> 0" "reserved mem T n"
  shows "readvalues mem T n check checks vals rp =
     (let (r, i, vals1, rp1) = readvalues_loop T n check 0 [] rp in
        if r \<noteq> Done then (r, vals1, rp1)
        else if i \<noteq> n then (Throw (errorTooFewValues rp1), vals1, rp1)
        else if length vals1 \<noteq> unat n then (AssertFail, vals1, rp1)
        else let error = (case checks of Some f \<Rightarrow> f vals1 | None \<Rightarrow> [])
             in (checkerror rp1 error, vals1, rp1))"
  using assms by (simp add: readvalues_def reserved_def)

lemma readvalues_not_reserved:
  assumes "n \<noteq> 0" "\<not> reserved mem T n"
  shows "readvalues mem T n check checks vals rp =
     (if max_size T < unat n then LengthError ''vector::reserve'' else BadAlloc, [], rp)"
  using assms by (auto simp: readvalues_def reserved_def)

text \<open>
  A count of \<open>2 ^ 60\<close> doubles is above \<open>max_size()\<close>: the call ends in \<open>reserve\<close>,
  whatever the line holds.
\<close>

lemma readvalues_length_error:
  "readvalues mem TDouble (2 ^ 60) check checks vals rp = (LengthError ''vector::reserve'', [], rp)"
  by (simp add: readvalues_def)

lemma readvalues_all:
  assumes "ready (line rp)" "rest (line rp) = join wts" "separated wts"
    and "list_all2 (clean T check rp) (map snd wts) vs" "n \<noteq> 0" "length wts \<le> unat n"
    and "reserved mem T n"
  shows "readvalues mem T n check checks old rp =
           (if length wts = unat n then checkerror rp (case checks of Some f \<Rightarrow> f vs | None \<Rightarrow> [])
            else Throw (errorTooFewValues rp),
            vs, rp\<lparr>line := \<lparr>rest = [], eofbit = True, failbit = True\<rparr>\<rparr>)"
proof -
  have d: "delimited []" by (simp add: delimited_def)
  from assms(2) have r: "rest (line rp) = join wts @ []" by simp
  from assms(4) have len: "length vs = length wts"
    by (simp add: list_all2_lengthD [symmetric])
  from assms(6) have le: "unat (0 :: 64 word) + length wts \<le> unat n" by simp
  from readvalues_loop_tokens [OF assms(1) r assms(3) d assms(4) le, of "[]"]
  have "readvalues_loop T n check 0 [] rp =
        (Done, of_nat (length wts), vs, rp\<lparr>line := \<lparr>rest = [], eofbit = True, failbit = True\<rparr>\<rparr>)"
    by (simp add: readvalues_loop_end)
  with len size_t_eq [OF assms(6)] show ?thesis
    by (simp add: readvalues_reserved [OF assms(5,7)])
qed

lemma readvalues_more:
  assumes "ready (line rp)" "rest (line rp) = join wts @ r" "separated wts" "delimited r"
    and "list_all2 (clean T check rp) (map snd wts) vs" "n \<noteq> 0" "length wts = unat n" "r \<noteq> []"
    and "reserved mem T n"
  shows "readvalues mem T n check checks old rp =
           (Throw (errorTooManyValues rp), vs,
            rp\<lparr>line := \<lparr>rest = r, eofbit = False, failbit = False\<rparr>\<rparr>)"
proof -
  let ?rp = "rp\<lparr>line := \<lparr>rest = r, eofbit = (r = []), failbit = False\<rparr>\<rparr>"
  from assms(7) have le: "unat (0 :: 64 word) + length wts \<le> unat n" by simp
  have "readvalues_loop T n check 0 [] rp =
        readvalues_loop T n check (0 + of_nat (length wts)) ([] @ vs) ?rp"
    using assms(1-5) le by (rule readvalues_loop_tokens)
  also have "\<dots> = readvalues_loop T n check n vs ?rp"
    using assms(7) by simp
  also have "\<dots> = (Throw (errorTooManyValues ?rp), n, vs, ?rp)"
    using assms(8) by (intro readvalues_loop_full) (simp_all add: good_def)
  finally show ?thesis
    using assms(8) by (simp add: readvalues_reserved [OF assms(6,9)])
qed

lemma readvalues_stops:
  assumes "ready (line rp)" "rest (line rp) = join wts @ w @ t @ r" "separated wts"
    and "w \<noteq> []" "blank w" "token t" "delimited r"
    and "list_all2 (clean T check rp) (map snd wts) vs" "length wts < unat n"
    and "invalid_char t \<or> snd (convert T check rp t) = None"
    and "reserved mem T n"
  shows "readvalues mem T n check checks old rp =
           (if invalid_char t then Throw (errorReadValue rp) else fst (convert T check rp t),
            vs, rp\<lparr>line := \<lparr>rest = r, eofbit = (r = []), failbit = False\<rparr>\<rparr>)"
proof -
  let ?r = "w @ t @ r"
  let ?rp = "rp\<lparr>line := \<lparr>rest = ?r, eofbit = (?r = []), failbit = False\<rparr>\<rparr>"
  let ?res = "if invalid_char t then Throw (errorReadValue rp) else fst (convert T check rp t)"
  let ?rp' = "rp\<lparr>line := \<lparr>rest = r, eofbit = (r = []), failbit = False\<rparr>\<rparr>"
  let ?k = "of_nat (length wts) :: 64 word"
  from assms(4,5) have d: "delimited ?r"
    by (cases w) (simp_all add: delimited_def blank_def)
  from assms(9) have le: "unat (0 :: 64 word) + length wts \<le> unat n" and le': "length wts \<le> unat n"
    and n: "n \<noteq> 0"
    by auto
  from size_t_eq [OF le'] assms(9) have ne: "?k \<noteq> n" by simp
  from assms(4) have g: "good (line ?rp)" and ner: "rest (line ?rp) \<noteq> []"
    by (simp_all add: good_def)
  have rest: "rest (line ?rp) = w @ t @ r" by simp
  have rd: "read T check ?rp = (?res, None, ?rp')"
    unfolding read_token [OF g rest assms(5-7)] using assms(10) by auto
  have "readvalues_loop T n check 0 [] rp =
        readvalues_loop T n check (0 + of_nat (length wts)) ([] @ vs) ?rp"
    using assms(1,2,3) d assms(8) le by (rule readvalues_loop_tokens)
  also have "\<dots> = readvalues_loop T n check ?k vs ?rp"
    by simp
  also have "\<dots> = (?res, ?k, vs, ?rp')"
    using g ner ne rd by (rule readvalues_loop_fail)
  finally have loop: "readvalues_loop T n check 0 [] rp = (?res, ?k, vs, ?rp')" .
  have "?res \<noteq> Done"
    using assms(10) by (auto dest: convert_None_not_Done)
  with loop show ?thesis
    by (simp add: readvalues_reserved [OF n assms(11)])
qed

subsection \<open>Evaluating the examples\<close>

lemmas eval_defs =
  open_file_def ifstream_open_def new_ReadPars_def new_istream_def isopen_def iseof_def
  peek_def good_def readline_def reset_def getline_stream_def readnext_def extract_string_def
  isspace_def fail_def isalnum_def isdigit_def iseol_def Let_def

lemma parse_double_1: "parse_double ''1'' = Some 1"
  by code_simp

lemma first_line_y: "first_line ''y 1 '' =
  \<lparr>filename = ''parameters.txt'', infile = \<lparr>rest = [], eofbit = True, failbit = False\<rparr>,
   is_open = True, count = 1, empty = False, comment = False,
   line = \<lparr>rest = '' 1 '', eofbit = False, failbit = False\<rparr>, line_str = ''y 1 '', name = ''y''\<rparr>"
  by (simp add: first_line_def eval_defs)

lemma read_y: "read TInt None (first_line ''y 1 '') =
  (Done, Some (IntV 1), (first_line ''y 1 '')\<lparr>line := \<lparr>rest = '' '', eofbit = False, failbit = False\<rparr>\<rparr>)"
  by (simp add: first_line_y read_def convert_def parse_double_1 isfinite_def trunc_def checkerror_def eval_defs)

subsection \<open>The end of the line\<close>

text \<open>
  C4, as the code has it: \<open>iseol()\<close> peeks at the next character of the line without
  skipping whitespace, so it answers false exactly when the line stream is good and at
  least one character, whitespace or not, is still to be read.
\<close>

theorem iseol_iff_no_character:
  "(\<not> fst (iseol rp)) = (good (line rp) \<and> rest (line rp) \<noteq> [])"
  by (cases "rest (line rp)") (simp_all add: iseol_def peek_def)

text \<open>
  C4 as stated fails on the line \<open>y 1 \<close>, which ends with a space: after the only
  value has been read, nothing but whitespace remains, and \<open>iseol()\<close> is false.
\<close>

theorem iseol_trailing_whitespace_counterexample:
  "fst (read TInt None (first_line ''y 1 '')) = Done
   \<and> blank (rest (line (snd (snd (read TInt None (first_line ''y 1 ''))))))
   \<and> \<not> fst (iseol (snd (snd (read TInt None (first_line ''y 1 '')))))"
  by (simp add: read_y blank_def isspace_def iseol_def peek_def good_def)

lemma clean_double:
  assumes "\<not> invalid_char t" "parse_double t = Some x"
    and "(case check of Some f \<Rightarrow> f (DoubleV x) | None \<Rightarrow> []) = []"
  shows "clean TDouble check rp t (DoubleV x)"
  using assms by (simp add: clean_def convert_def checkerror_def)

lemma parse_double_genes:
  "parse_double ''1.0'' = Some 1"
  "parse_double ''1.2'' = Some (5404319552844595 / 4503599627370496)"
  "parse_double ''3.5'' = Some (7 / 2)"
  "parse_double ''2.0'' = Some 2"
  by code_simp+

lemma first_line_genes: "first_line ''genes 1.0 1.2 3.5 2.0'' =
  \<lparr>filename = ''parameters.txt'', infile = \<lparr>rest = [], eofbit = True, failbit = False\<rparr>,
   is_open = True, count = 1, empty = False, comment = False,
   line = \<lparr>rest = '' 1.0 1.2 3.5 2.0'', eofbit = False, failbit = False\<rparr>,
   line_str = ''genes 1.0 1.2 3.5 2.0'', name = ''genes''\<rparr>"
  by (simp add: first_line_def eval_defs)

lemma to_string_1: "to_string (Suc 0) = ''1''" "to_string 1 = ''1''"
  by code_simp+

lemmas token_defs = separated_def blank_def token_def delimited_def isspace_def isalnum_def isdigit_def

lemma clean_genes:
  "list_all2 (clean TDouble (Some checkstrictpos) (first_line ''genes 1.0 1.2 3.5 2.0''))
     [''1.0'', ''1.2'', ''3.5'', ''2.0'']
     [DoubleV 1, DoubleV (5404319552844595 / 4503599627370496), DoubleV (7 / 2), DoubleV 2]"
  by (simp add: clean_double parse_double_genes checkstrictpos_def isalnum_def isdigit_def)

subsection \<open>Reading a vector\<close>



subsection \<open>Reading a scalar\<close>

lemma readvalue_token:
  assumes "good (line rp)" "rest (line rp) = w @ t @ r" "blank w" "token t" "delimited r"
  shows "readvalue T check old rp =
           (if invalid_char t
            then (Throw (errorReadValue rp), old,
                  rp\<lparr>line := \<lparr>rest = r, eofbit = (r = []), failbit = False\<rparr>\<rparr>)
            else if fst (convert T check rp t) \<noteq> Done
            then (fst (convert T check rp t), assign old (snd (convert T check rp t)),
                  rp\<lparr>line := \<lparr>rest = r, eofbit = (r = []), failbit = False\<rparr>\<rparr>)
            else if r \<noteq> []
            then (Throw (errorTooManyValues rp), assign old (snd (convert T check rp t)),
                  rp\<lparr>line := \<lparr>rest = r, eofbit = False, failbit = False\<rparr>\<rparr>)
            else (Done, assign old (snd (convert T check rp t)),
                  rp\<lparr>line := \<lparr>rest = [], eofbit = True, failbit = True\<rparr>\<rparr>))"
proof -
  let ?rp' = "rp\<lparr>line := \<lparr>rest = r, eofbit = (r = []), failbit = False\<rparr>\<rparr>"
  from assms(1) have l: "(line rp)\<lparr>rest := r, eofbit := (r = [])\<rparr> = \<lparr>rest = r, eofbit = (r = []), failbit = False\<rparr>"
    by (simp add: good_def)
  have rd: "read T check rp =
           (if invalid_char t then Throw (errorReadValue rp) else fst (convert T check rp t),
            if invalid_char t then None else snd (convert T check rp t), ?rp')"
    unfolding read_token [OF assms] l ..
  have eol: "iseol ?rp' = (r = [], if r = [] then rp\<lparr>line := \<lparr>rest = [], eofbit = True, failbit = True\<rparr>\<rparr> else ?rp')"
    by (cases "r = []") (simp_all add: iseol_good iseol_not_good good_def)
  show ?thesis
    by (simp add: readvalue_def rd eol assign_def)
qed

lemma convert_negative_unsigned:
  assumes "is_unsigned T" "parse_double t = Some x" "x < 0"
  shows "convert T check rp t = (Throw (errorParseValue rp), None)"
  using assms by (simp add: convert_def)

lemma parse_double_minus_1: "parse_double ''-1'' = Some (- 1)"
  by code_simp

lemma first_line_u: "first_line ''u 1 -1'' =
  \<lparr>filename = ''parameters.txt'', infile = \<lparr>rest = [], eofbit = True, failbit = False\<rparr>,
   is_open = True, count = 1, empty = False, comment = False,
   line = \<lparr>rest = '' 1 -1'', eofbit = False, failbit = False\<rparr>,
   line_str = ''u 1 -1'', name = ''u''\<rparr>"
  by (simp add: first_line_def eval_defs)

lemma first_line_minus: "first_line ''u -1'' =
  \<lparr>filename = ''parameters.txt'', infile = \<lparr>rest = [], eofbit = True, failbit = False\<rparr>,
   is_open = True, count = 1, empty = False, comment = False,
   line = \<lparr>rest = '' -1'', eofbit = False, failbit = False\<rparr>,
   line_str = ''u -1'', name = ''u''\<rparr>"
  by (simp add: first_line_def eval_defs)

lemma parse_double_minus_1e5: "parse_double ''-1e+5'' = Some (- 100000)"
  by code_simp

lemma first_line_minus_plus: "first_line ''u -1e+5'' =
  \<lparr>filename = ''parameters.txt'', infile = \<lparr>rest = [], eofbit = True, failbit = False\<rparr>,
   is_open = True, count = 1, empty = False, comment = False,
   line = \<lparr>rest = '' -1e+5'', eofbit = False, failbit = False\<rparr>,
   line_str = ''u -1e+5'', name = ''u''\<rparr>"
  by (simp add: first_line_def eval_defs)

lemma clean_unsigned_1: "clean TUnsigned None rp ''1'' (UnsignedV 1)"
  by (simp add: clean_def convert_def parse_double_1 isfinite_def trunc_def checkerror_def
        isalnum_def isdigit_def)

subsection \<open>Negative numbers and unsigned destinations\<close>

text \<open>
  C1, as the code has it: the destination type is unsigned (\<open>unsigned int\<close> or
  \<open>bool\<close>) and the token \<open>t\<close> parses as the negative double \<open>x\<close>. The call fails
  and stores nothing, with one of two errors. When \<open>t\<close> has only characters that
  \<open>readnext\<close> accepts (letters, digits, the dot and the minus sign) it is parsed, the
  test \<open>x < 0\<close> is made on the double before any conversion to the unsigned type, and
  the call throws the invalid-value-type error. When \<open>t\<close> has another character, as the
  plus sign of \<open>-1e+5\<close>, \<open>readnext\<close> refuses it and the call throws the
  could-not-read-value error; the token is never parsed. As the next token of the line,
  a scalar \<open>readvalue\<close> leaves the destination as it was; after the cleanly read tokens
  \<open>wts\<close>, \<open>readvalues\<close> (with a count that \<open>reserve\<close> accepts) leaves in the vector
  the values read before and nothing else. No wrapped value is ever stored.
\<close>

theorem negative_into_unsigned:
  assumes "is_unsigned T" and "ready (line rp)"
    and "rest (line rp) = join wts @ w @ t @ r" and "separated wts"
    and "w \<noteq> []" and "blank w" and "token t" and "delimited r"
    and "list_all2 (clean T check rp) (map snd wts) vs"
    and "parse_double t = Some x" and "x < 0"
  shows "(wts = [] \<longrightarrow>
            fst (readvalue T check old rp) =
              Throw ((if invalid_char t then ''Could not read value'' else ''Invalid value type'')
                       @ '' for parameter '' @ name rp @ '' in line ''
                       @ to_string (unat (count rp)) @ '' of file '' @ filename rp)
            \<and> fst (snd (readvalue T check old rp)) = old)
       \<and> (length wts < unat n \<and> reserved mem T n \<longrightarrow>
            fst (readvalues mem T n check checks olds rp) =
              Throw ((if invalid_char t then ''Could not read value'' else ''Invalid value type'')
                       @ '' for parameter '' @ name rp @ '' in line ''
                       @ to_string (unat (count rp)) @ '' of file '' @ filename rp)
            \<and> fst (snd (readvalues mem T n check checks olds rp)) = vs)"
proof (intro conjI impI)
  note cv = convert_negative_unsigned [OF assms(1,10,11), of check rp]
  {
    assume e: "wts = []"
    with assms(3) have rest: "rest (line rp) = w @ t @ r" by simp
    with assms(5) have "rest (line rp) \<noteq> []" by simp
    with assms(2) have g: "good (line rp)" by (rule ready_good)
    note rv = readvalue_token [OF g rest assms(6,7,8), of T check old]
    show "fst (readvalue T check old rp) =
              Throw ((if invalid_char t then ''Could not read value'' else ''Invalid value type'')
                       @ '' for parameter '' @ name rp @ '' in line ''
                       @ to_string (unat (count rp)) @ '' of file '' @ filename rp)"
      by (simp add: rv cv errorParseValue_def errorReadValue_def)
    show "fst (snd (readvalue T check old rp)) = old"
      by (simp add: rv cv assign_def)
  }
  {
    assume a: "length wts < unat n \<and> reserved mem T n"
    then have len: "length wts < unat n" and res: "reserved mem T n" by simp_all
    have bad: "invalid_char t \<or> snd (convert T check rp t) = None"
      by (simp add: cv)
    note rv = readvalues_stops [OF assms(2,3,4,5,6,7,8,9) len bad res, of checks olds]
    show "fst (readvalues mem T n check checks olds rp) =
              Throw ((if invalid_char t then ''Could not read value'' else ''Invalid value type'')
                       @ '' for parameter '' @ name rp @ '' in line ''
                       @ to_string (unat (count rp)) @ '' of file '' @ filename rp)"
      by (simp add: rv cv errorParseValue_def errorReadValue_def)
    show "fst (snd (readvalues mem T n check checks olds rp)) = vs"
      by (simp add: rv)
  }
qed

text \<open>
  The witness reads the lines \<open>u -1\<close>, \<open>u -1e+5\<close> and \<open>u 1 -1\<close> into unsigned
  destinations.
\<close>

theorem negative_into_unsigned_witness:
  "fst (readvalue TUnsigned None (UnsignedV 7) (first_line ''u -1''))
     = Throw ''Invalid value type for parameter u in line 1 of file parameters.txt''
   \<and> fst (snd (readvalue TUnsigned None (UnsignedV 7) (first_line ''u -1''))) = UnsignedV 7
   \<and> fst (readvalue TUnsigned None (UnsignedV 7) (first_line ''u -1e+5''))
     = Throw ''Could not read value for parameter u in line 1 of file parameters.txt''
   \<and> fst (snd (readvalue TUnsigned None (UnsignedV 7) (first_line ''u -1e+5''))) = UnsignedV 7
   \<and> fst (readvalues (\<lambda>_ _. True) TUnsigned 2 None None [] (first_line ''u 1 -1''))
     = Throw ''Invalid value type for parameter u in line 1 of file parameters.txt''
   \<and> fst (snd (readvalues (\<lambda>_ _. True) TUnsigned 2 None None [] (first_line ''u 1 -1''))) = [UnsignedV 1]"
proof -
  let ?a = "first_line ''u -1''" and ?b = "first_line ''u 1 -1''" and ?c = "first_line ''u -1e+5''"
  have a: "ready (line ?a)" "rest (line ?a) = join [] @ '' '' @ ''-1'' @ []"
    and na: "name ?a = ''u''" "count ?a = 1" "filename ?a = ''parameters.txt''"
    by (simp_all add: first_line_minus ready_def)
  have b: "ready (line ?b)" "rest (line ?b) = join [('' '', ''1'')] @ '' '' @ ''-1'' @ []"
    and nb: "name ?b = ''u''" "count ?b = 1" "filename ?b = ''parameters.txt''"
    by (simp_all add: first_line_u ready_def)
  have c: "ready (line ?c)" "rest (line ?c) = join [] @ '' '' @ ''-1e+5'' @ []"
    and nc: "name ?c = ''u''" "count ?c = 1" "filename ?c = ''parameters.txt''"
    by (simp_all add: first_line_minus_plus ready_def)
  have tok: "separated []" "separated [('' '', ''1'')]" "'' '' \<noteq> []" "blank '' ''" "token ''-1''"
    "delimited []" "token ''-1e+5''"
    by (simp_all add: token_defs)
  have inv: "\<not> invalid_char ''-1''" "invalid_char ''-1e+5''"
    by (simp_all add: isalnum_def isdigit_def)
  have u: "is_unsigned TUnsigned" and neg: "(- 1 :: rat) < 0" "(- 100000 :: rat) < 0"
    by simp_all
  have ca: "list_all2 (clean TUnsigned None ?a) (map snd []) []"
    and cb: "list_all2 (clean TUnsigned None ?b) (map snd [('' '', ''1'')]) [UnsignedV 1]"
    and cc: "list_all2 (clean TUnsigned None ?c) (map snd []) []"
    by (simp_all add: clean_unsigned_1)
  from negative_into_unsigned [OF u a tok(1,3,4,5,6) ca parse_double_minus_1 neg(1),
         where old = "UnsignedV 7" and n = 1 and mem = "\<lambda>_ _. True" and checks = None and olds = "[]"]
       negative_into_unsigned [OF u c tok(1,3,4,7,6) cc parse_double_minus_1e5 neg(2),
         where old = "UnsignedV 7" and n = 1 and mem = "\<lambda>_ _. True" and checks = None and olds = "[]"]
       negative_into_unsigned [OF u b tok(2,3,4,5,6) cb parse_double_minus_1 neg(1),
         where old = "UnsignedV 7" and n = 2 and mem = "\<lambda>_ _. True" and checks = None and olds = "[]"]
  show ?thesis
    by (simp add: na nb nc to_string_1 reserved_def inv del: invalid_char.simps)
qed

text \<open>
  C1 as stated fails on the line \<open>u -1e+5\<close>, read into an \<open>unsigned int\<close>: the token
  is the negative number \<open>-100000\<close> for the parser, and the call fails, but with the
  could-not-read-value error and not with the invalid-value-type error, because of the
  plus sign.
\<close>

theorem negative_exponent_sign_counterexample:
  "is_unsigned TUnsigned
   \<and> parse_double ''-1e+5'' = Some (- 100000)
   \<and> fst (readvalue TUnsigned None (UnsignedV 7) (first_line ''u -1e+5''))
       = Throw ''Could not read value for parameter u in line 1 of file parameters.txt''
   \<and> fst (readvalue TUnsigned None (UnsignedV 7) (first_line ''u -1e+5''))
       \<noteq> Throw ''Invalid value type for parameter u in line 1 of file parameters.txt''"
proof -
  let ?c = "first_line ''u -1e+5''"
  have g: "good (line ?c)" and rest: "rest (line ?c) = '' '' @ ''-1e+5'' @ []"
    and nc: "name ?c = ''u''" "count ?c = 1" "filename ?c = ''parameters.txt''"
    by (simp_all add: first_line_minus_plus good_def)
  have tok: "blank '' ''" "token ''-1e+5''" "delimited []"
    by (simp_all add: token_defs)
  have inv: "invalid_char ''-1e+5''"
    by (simp add: isalnum_def isdigit_def)
  from readvalue_token [OF g rest tok, of TUnsigned None "UnsignedV 7"] inv
  have "fst (readvalue TUnsigned None (UnsignedV 7) ?c) = Throw (errorReadValue ?c)"
    by (simp del: invalid_char.simps)
  then show ?thesis
    by (simp add: parse_double_minus_1e5 errorReadValue_def nc to_string_1)
qed

lemma genes_facts:
  "ready (line (first_line ''genes 1.0 1.2 3.5 2.0''))"
  "rest (line (first_line ''genes 1.0 1.2 3.5 2.0''))
     = join [('' '', ''1.0''), ('' '', ''1.2''), ('' '', ''3.5''), ('' '', ''2.0'')]"
  "rest (line (first_line ''genes 1.0 1.2 3.5 2.0''))
     = join [('' '', ''1.0''), ('' '', ''1.2''), ('' '', ''3.5'')] @ '' 2.0''"
  "name (first_line ''genes 1.0 1.2 3.5 2.0'') = ''genes''"
  "count (first_line ''genes 1.0 1.2 3.5 2.0'') = 1"
  "filename (first_line ''genes 1.0 1.2 3.5 2.0'') = ''parameters.txt''"
  by (simp_all add: first_line_genes ready_def)

lemma genes_tokens:
  "separated [('' '', ''1.0''), ('' '', ''1.2''), ('' '', ''3.5''), ('' '', ''2.0'')]"
  "separated [('' '', ''1.0''), ('' '', ''1.2''), ('' '', ''3.5'')]"
  "delimited '' 2.0''" "'' 2.0'' \<noteq> []"
  by (simp_all add: token_defs)

lemma clean_genes3:
  "list_all2 (clean TDouble (Some checkstrictpos) (first_line ''genes 1.0 1.2 3.5 2.0''))
     (map snd [('' '', ''1.0''), ('' '', ''1.2''), ('' '', ''3.5'')])
     [DoubleV 1, DoubleV (5404319552844595 / 4503599627370496), DoubleV (7 / 2)]"
  "list_all2 (clean TDouble (Some checkstrictpos) (first_line ''genes 1.0 1.2 3.5 2.0''))
     (map snd [('' '', ''1.0''), ('' '', ''1.2''), ('' '', ''3.5''), ('' '', ''2.0'')])
     [DoubleV 1, DoubleV (5404319552844595 / 4503599627370496), DoubleV (7 / 2), DoubleV 2]"
  using clean_genes by simp_all

subsection \<open>The destination vector after a failed read\<close>

text \<open>
  C3, as the code has it: \<open>readvalues\<close> works on the caller's vector, which it clears
  and then fills value by value. Under the hypotheses of C2 (a count that \<open>reserve\<close>
  accepts among them), when it throws the
  too-few-values error the vector holds the values of all the tokens of the line, and
  when it throws the too-many-values error it holds the first \<open>n\<close> values; what the
  vector held before the call is lost in both cases.
\<close>

theorem readvalues_failure_destination:
  assumes "ready (line rp)" and "rest (line rp) = join wts @ r" and "separated wts"
    and "delimited r" and "list_all2 (clean T check rp) (map snd wts) vs"
    and "n \<noteq> 0" and "length wts \<le> unat n" and "reserved mem T n"
  shows "(r = [] \<and> length wts < unat n \<longrightarrow>
            fst (readvalues mem T n check checks old rp) = Throw (errorTooFewValues rp)
            \<and> fst (snd (readvalues mem T n check checks old rp)) = vs)
       \<and> (r \<noteq> [] \<and> length wts = unat n \<longrightarrow>
            fst (readvalues mem T n check checks old rp) = Throw (errorTooManyValues rp)
            \<and> fst (snd (readvalues mem T n check checks old rp)) = vs)"
proof (intro conjI impI)
  {
    assume a: "r = [] \<and> length wts < unat n"
    with assms(2) have rest: "rest (line rp) = join wts" by simp
    note rv = readvalues_all [OF assms(1) rest assms(3,5,6,7,8), of checks old]
    from a show "fst (readvalues mem T n check checks old rp) = Throw (errorTooFewValues rp)"
      by (simp add: rv)
    show "fst (snd (readvalues mem T n check checks old rp)) = vs"
      by (simp add: rv)
  }
  {
    assume a: "r \<noteq> [] \<and> length wts = unat n"
    then have r: "r \<noteq> []" and len: "length wts = unat n" by simp_all
    note rv = readvalues_more [OF assms(1-6) len r assms(8), of checks old]
    show "fst (readvalues mem T n check checks old rp) = Throw (errorTooManyValues rp)"
      by (simp add: rv)
    show "fst (snd (readvalues mem T n check checks old rp)) = vs"
      by (simp add: rv)
  }
qed

text \<open>
  The witness reads the line \<open>genes 1.0 1.2 3.5 2.0\<close> with counts 6 and 3.
\<close>

theorem readvalues_failure_destination_witness:
  "fst (readvalues (\<lambda>_ _. True) TDouble 6 (Some checkstrictpos) None [] (first_line ''genes 1.0 1.2 3.5 2.0''))
     = Throw ''Too few values for parameter genes in line 1 of file parameters.txt''
   \<and> fst (snd (readvalues (\<lambda>_ _. True) TDouble 6 (Some checkstrictpos) None [] (first_line ''genes 1.0 1.2 3.5 2.0'')))
     = [DoubleV 1, DoubleV (5404319552844595 / 4503599627370496), DoubleV (7 / 2), DoubleV 2]
   \<and> fst (readvalues (\<lambda>_ _. True) TDouble 3 (Some checkstrictpos) None [] (first_line ''genes 1.0 1.2 3.5 2.0''))
     = Throw ''Too many values for parameter genes in line 1 of file parameters.txt''
   \<and> fst (snd (readvalues (\<lambda>_ _. True) TDouble 3 (Some checkstrictpos) None [] (first_line ''genes 1.0 1.2 3.5 2.0'')))
     = [DoubleV 1, DoubleV (5404319552844595 / 4503599627370496), DoubleV (7 / 2)]"
proof -
  have full: "rest (line (first_line ''genes 1.0 1.2 3.5 2.0''))
     = join [('' '', ''1.0''), ('' '', ''1.2''), ('' '', ''3.5''), ('' '', ''2.0'')] @ []"
    by (simp add: genes_facts(2))
  have d: "delimited []"
    by (simp add: delimited_def)
  from readvalues_failure_destination [OF genes_facts(1) full genes_tokens(1) d clean_genes3(2),
         where n = 6 and mem = "\<lambda>_ _. True" and checks = None and old = "[]"]
       readvalues_failure_destination [OF genes_facts(1,3) genes_tokens(2,3) clean_genes3(1),
         where n = 3 and mem = "\<lambda>_ _. True" and checks = None and old = "[]"]
  show ?thesis
    by (simp add: genes_facts(4-6) errorTooFewValues_def errorTooManyValues_def to_string_1
          reserved_def)
qed

text \<open>
  C3 as stated fails on the same line: the destination held the single value 7 before
  the call; after the too-few-values error (count 5) it holds the four values of the
  line, and after the too-many-values error (count 3) it holds the first three of them.
  Nothing is discarded or restored.
\<close>

theorem readvalues_not_atomic_counterexample:
  "fst (readvalues (\<lambda>_ _. True) TDouble 5 (Some checkstrictpos) None [DoubleV 7] (first_line ''genes 1.0 1.2 3.5 2.0''))
     = Throw ''Too few values for parameter genes in line 1 of file parameters.txt''
   \<and> fst (snd (readvalues (\<lambda>_ _. True) TDouble 5 (Some checkstrictpos) None [DoubleV 7] (first_line ''genes 1.0 1.2 3.5 2.0'')))
     = [DoubleV 1, DoubleV (5404319552844595 / 4503599627370496), DoubleV (7 / 2), DoubleV 2]
   \<and> fst (readvalues (\<lambda>_ _. True) TDouble 3 (Some checkstrictpos) None [DoubleV 7] (first_line ''genes 1.0 1.2 3.5 2.0''))
     = Throw ''Too many values for parameter genes in line 1 of file parameters.txt''
   \<and> fst (snd (readvalues (\<lambda>_ _. True) TDouble 3 (Some checkstrictpos) None [DoubleV 7] (first_line ''genes 1.0 1.2 3.5 2.0'')))
     = [DoubleV 1, DoubleV (5404319552844595 / 4503599627370496), DoubleV (7 / 2)]"
proof -
  have le: "(5 :: 64 word) \<noteq> 0"
    "length [('' '', ''1.0''), ('' '', ''1.2''), ('' '', ''3.5''), ('' '', ''2.0'')] \<le> unat (5 :: 64 word)"
    "(3 :: 64 word) \<noteq> 0"
    "length [('' '', ''1.0''), ('' '', ''1.2''), ('' '', ''3.5'')] = unat (3 :: 64 word)"
    and res: "reserved (\<lambda>_ _. True) TDouble 5" "reserved (\<lambda>_ _. True) TDouble 3"
    by (simp_all add: reserved_def)
  from readvalues_all [OF genes_facts(1,2) genes_tokens(1) clean_genes3(2) le(1,2) res(1),
         of None "[DoubleV 7]"]
       readvalues_more [OF genes_facts(1,3) genes_tokens(2,3) clean_genes3(1) le(3,4) genes_tokens(4) res(2),
         of None "[DoubleV 7]"]
  show ?thesis
    by (simp add: genes_facts(4-6) errorTooFewValues_def errorTooManyValues_def to_string_1)
qed

subsection \<open>The characters of a value token\<close>

lemma invalid_char_iff:
  "invalid_char t \<longleftrightarrow> (\<exists>c\<in>set t. \<not> isalnum c \<and> c \<noteq> CHR ''.'' \<and> c \<noteq> CHR ''-'')"
  by (induction t) auto

lemma message_distinct:
  "errorReadValue a \<noteq> errorParseValue b"
  "errorReadValue a \<noteq> errorTooManyValues b"
  "errorParseValue a \<noteq> errorTooManyValues b"
  "checkerror a e \<noteq> Throw (errorReadValue b)"
  "checkerror a e \<noteq> Throw (errorParseValue b)"
  "checkerror a e \<noteq> Throw (errorTooManyValues b)"
  by (simp_all add: errorReadValue_def errorParseValue_def errorTooManyValues_def checkerror_def)

lemma parse_double_1e5: "parse_double ''1e+5'' = Some 100000"
  by code_simp

lemma first_line_plus: "first_line ''x 1e+5'' =
  \<lparr>filename = ''parameters.txt'', infile = \<lparr>rest = [], eofbit = True, failbit = False\<rparr>,
   is_open = True, count = 1, empty = False, comment = False,
   line = \<lparr>rest = '' 1e+5'', eofbit = False, failbit = False\<rparr>,
   line_str = ''x 1e+5'', name = ''x''\<rparr>"
  by (simp add: first_line_def eval_defs)

lemma first_line_x1: "first_line ''x 1'' =
  \<lparr>filename = ''parameters.txt'', infile = \<lparr>rest = [], eofbit = True, failbit = False\<rparr>,
   is_open = True, count = 1, empty = False, comment = False,
   line = \<lparr>rest = '' 1'', eofbit = False, failbit = False\<rparr>,
   line_str = ''x 1'', name = ''x''\<rparr>"
  by (simp add: first_line_def eval_defs)

lemma first_line_x1_plus: "first_line ''x 1 1e+5'' =
  \<lparr>filename = ''parameters.txt'', infile = \<lparr>rest = [], eofbit = True, failbit = False\<rparr>,
   is_open = True, count = 1, empty = False, comment = False,
   line = \<lparr>rest = '' 1 1e+5'', eofbit = False, failbit = False\<rparr>,
   line_str = ''x 1 1e+5'', name = ''x''\<rparr>"
  by (simp add: first_line_def eval_defs)

text \<open>
  C8: the line holds the cleanly read value tokens \<open>wts\<close> and then the token \<open>t\<close>,
  which is the next token of the line when \<open>wts\<close> is empty. \<open>readnext\<close>, which
  \<open>readline\<close> calls for the parameter name and \<open>read\<close> for every value, accepts the
  next token exactly when all its characters are alphanumeric, \<open>.\<close> or \<open>-\<close>, and an
  accepted token is handed to the conversion. A token with any other character, at any
  position among the values, is never converted: a scalar \<open>readvalue\<close> on it, and
  \<open>readvalues\<close> (with a count above its position that \<open>reserve\<close> accepts) when it
  reaches it, throw the could-not-read-value error, which is not the invalid-value-type
  error of the conversion; the scalar destination keeps its value and the vector holds
  the values read before the token. A token that passes the rule and fails in the
  conversion ends \<open>readvalues\<close> with the outcome of the conversion.
\<close>

theorem value_token_characters:
  assumes "ready (line rp)" and "rest (line rp) = join wts @ w @ t @ r" and "separated wts"
    and "w \<noteq> []" and "blank w" and "token t" and "delimited r"
    and "list_all2 (clean T check rp) (map snd wts) vs"
  shows "(wts = [] \<longrightarrow>
            fst (readnext (line rp) str) = (\<forall>c\<in>set t. isalnum c \<or> c = CHR ''.'' \<or> c = CHR ''-''))
       \<and> (wts = [] \<and> (\<forall>c\<in>set t. isalnum c \<or> c = CHR ''.'' \<or> c = CHR ''-'') \<longrightarrow>
             fst (read T check rp) = fst (convert T check rp t))
       \<and> ((\<exists>c\<in>set t. \<not> isalnum c \<and> c \<noteq> CHR ''.'' \<and> c \<noteq> CHR ''-'') \<longrightarrow>
             (wts = [] \<longrightarrow>
                fst (readvalue T check old rp) =
                  Throw (''Could not read value for parameter '' @ name rp @ '' in line ''
                           @ to_string (unat (count rp)) @ '' of file '' @ filename rp)
                \<and> fst (readvalue T check old rp) \<noteq> Throw (errorParseValue rp)
                \<and> fst (snd (readvalue T check old rp)) = old)
             \<and> (length wts < unat n \<and> reserved mem T n \<longrightarrow>
                  fst (readvalues mem T n check checks olds rp) =
                    Throw (''Could not read value for parameter '' @ name rp @ '' in line ''
                             @ to_string (unat (count rp)) @ '' of file '' @ filename rp)
                  \<and> fst (readvalues mem T n check checks olds rp) \<noteq> Throw (errorParseValue rp)
                  \<and> fst (snd (readvalues mem T n check checks olds rp)) = vs))
       \<and> ((\<forall>c\<in>set t. isalnum c \<or> c = CHR ''.'' \<or> c = CHR ''-'')
            \<and> snd (convert T check rp t) = None \<and> length wts < unat n \<and> reserved mem T n \<longrightarrow>
             fst (readvalues mem T n check checks olds rp) = fst (convert T check rp t)
             \<and> fst (snd (readvalues mem T n check checks olds rp)) = vs)"
proof -
  have msg: "Throw (errorReadValue rp) =
             Throw (''Could not read value for parameter '' @ name rp @ '' in line ''
                      @ to_string (unat (count rp)) @ '' of file '' @ filename rp)"
    by (simp add: errorReadValue_def)
  have ne: "Throw (errorReadValue rp) \<noteq> Throw (errorParseValue rp)"
    by (simp add: message_distinct)
  have c1: "fst (readnext (line rp) str) = (\<forall>c\<in>set t. isalnum c \<or> c = CHR ''.'' \<or> c = CHR ''-'')"
    and c2: "(\<forall>c\<in>set t. isalnum c \<or> c = CHR ''.'' \<or> c = CHR ''-'') \<longrightarrow>
             fst (read T check rp) = fst (convert T check rp t)"
    and c3: "(\<exists>c\<in>set t. \<not> isalnum c \<and> c \<noteq> CHR ''.'' \<and> c \<noteq> CHR ''-'') \<longrightarrow>
                fst (readvalue T check old rp) =
                  Throw (''Could not read value for parameter '' @ name rp @ '' in line ''
                           @ to_string (unat (count rp)) @ '' of file '' @ filename rp)
                \<and> fst (readvalue T check old rp) \<noteq> Throw (errorParseValue rp)
                \<and> fst (snd (readvalue T check old rp)) = old"
    if e: "wts = []"
  proof -
    from e assms(2) have rest: "rest (line rp) = w @ t @ r" by simp
    with assms(4) have "rest (line rp) \<noteq> []" by simp
    with assms(1) have g: "good (line rp)" by (rule ready_good)
    note tok = g rest assms(5,6,7)
    show "fst (readnext (line rp) str) = (\<forall>c\<in>set t. isalnum c \<or> c = CHR ''.'' \<or> c = CHR ''-'')"
      by (auto simp: readnext_token [OF tok] invalid_char_iff)
    show "(\<forall>c\<in>set t. isalnum c \<or> c = CHR ''.'' \<or> c = CHR ''-'') \<longrightarrow>
             fst (read T check rp) = fst (convert T check rp t)"
    proof
      assume "\<forall>c\<in>set t. isalnum c \<or> c = CHR ''.'' \<or> c = CHR ''-''"
      then have "\<not> invalid_char t" by (auto simp: invalid_char_iff)
      then show "fst (read T check rp) = fst (convert T check rp t)"
        by (simp add: read_token [OF tok])
    qed
    show "(\<exists>c\<in>set t. \<not> isalnum c \<and> c \<noteq> CHR ''.'' \<and> c \<noteq> CHR ''-'') \<longrightarrow>
                fst (readvalue T check old rp) =
                  Throw (''Could not read value for parameter '' @ name rp @ '' in line ''
                           @ to_string (unat (count rp)) @ '' of file '' @ filename rp)
                \<and> fst (readvalue T check old rp) \<noteq> Throw (errorParseValue rp)
                \<and> fst (snd (readvalue T check old rp)) = old"
    proof
      assume "\<exists>c\<in>set t. \<not> isalnum c \<and> c \<noteq> CHR ''.'' \<and> c \<noteq> CHR ''-''"
      then have inv: "invalid_char t" by (auto simp: invalid_char_iff)
      then have rv: "readvalue T check old rp =
          (Throw (errorReadValue rp), old, rp\<lparr>line := \<lparr>rest = r, eofbit = (r = []), failbit = False\<rparr>\<rparr>)"
        by (simp add: readvalue_token [OF tok])
      have "fst (readvalue T check old rp) = Throw (errorReadValue rp)"
        and "fst (snd (readvalue T check old rp)) = old"
        by (simp_all add: rv)
      with msg ne show "fst (readvalue T check old rp) =
                  Throw (''Could not read value for parameter '' @ name rp @ '' in line ''
                           @ to_string (unat (count rp)) @ '' of file '' @ filename rp)
                \<and> fst (readvalue T check old rp) \<noteq> Throw (errorParseValue rp)
                \<and> fst (snd (readvalue T check old rp)) = old"
        by metis
    qed
  qed
  have stops: "readvalues mem T n check checks olds rp =
           (if invalid_char t then Throw (errorReadValue rp) else fst (convert T check rp t),
            vs, rp\<lparr>line := \<lparr>rest = r, eofbit = (r = []), failbit = False\<rparr>\<rparr>)"
    if "length wts < unat n" "reserved mem T n" "invalid_char t \<or> snd (convert T check rp t) = None"
    using assms that(1,3,2) by (rule readvalues_stops)
  have c4: "fst (readvalues mem T n check checks olds rp) =
                    Throw (''Could not read value for parameter '' @ name rp @ '' in line ''
                             @ to_string (unat (count rp)) @ '' of file '' @ filename rp)
                  \<and> fst (readvalues mem T n check checks olds rp) \<noteq> Throw (errorParseValue rp)
                  \<and> fst (snd (readvalues mem T n check checks olds rp)) = vs"
    if i: "\<exists>c\<in>set t. \<not> isalnum c \<and> c \<noteq> CHR ''.'' \<and> c \<noteq> CHR ''-''"
      and l: "length wts < unat n \<and> reserved mem T n"
  proof -
    from i have inv: "invalid_char t" by (auto simp: invalid_char_iff)
    with l have rv: "readvalues mem T n check checks olds rp =
        (Throw (errorReadValue rp), vs, rp\<lparr>line := \<lparr>rest = r, eofbit = (r = []), failbit = False\<rparr>\<rparr>)"
      by (simp add: stops)
    have "fst (readvalues mem T n check checks olds rp) = Throw (errorReadValue rp)"
      and "fst (snd (readvalues mem T n check checks olds rp)) = vs"
      by (simp_all add: rv)
    with msg ne show ?thesis
      by metis
  qed
  have c5: "fst (readvalues mem T n check checks olds rp) = fst (convert T check rp t)
             \<and> fst (snd (readvalues mem T n check checks olds rp)) = vs"
    if v: "(\<forall>c\<in>set t. isalnum c \<or> c = CHR ''.'' \<or> c = CHR ''-'')
            \<and> snd (convert T check rp t) = None \<and> length wts < unat n \<and> reserved mem T n"
  proof -
    from v have "\<not> invalid_char t" by (auto simp: invalid_char_iff)
    with v show ?thesis
      by (simp add: stops)
  qed
  from c1 c2 c3 c4 c5 show ?thesis by blast
qed

text \<open>
  The witness is the token \<open>1e+5\<close>, alone and after the value \<open>1\<close>: the conversion
  would parse it as 100000, but its \<open>+\<close> stops it at \<open>readnext\<close>. The token \<open>1\<close>
  passes, and so does \<open>-1\<close>, which the conversion to \<open>unsigned\<close> then refuses.
\<close>

theorem value_token_characters_witness:
  "parse_double ''1e+5'' = Some 100000
   \<and> \<not> fst (readnext (line (first_line ''x 1e+5'')) [])
   \<and> fst (readvalue TDouble None (DoubleV 7) (first_line ''x 1e+5''))
       = Throw ''Could not read value for parameter x in line 1 of file parameters.txt''
   \<and> fst (snd (readvalue TDouble None (DoubleV 7) (first_line ''x 1e+5''))) = DoubleV 7
   \<and> fst (readvalues (\<lambda>_ _. True) TDouble 2 None None [DoubleV 7] (first_line ''x 1 1e+5''))
       = Throw ''Could not read value for parameter x in line 1 of file parameters.txt''
   \<and> fst (snd (readvalues (\<lambda>_ _. True) TDouble 2 None None [DoubleV 7] (first_line ''x 1 1e+5'')))
       = [DoubleV 1]
   \<and> fst (readnext (line (first_line ''x 1'')) [])
   \<and> fst (read TDouble None (first_line ''x 1'')) = Done
   \<and> fst (readvalues (\<lambda>_ _. True) TUnsigned 2 None None [UnsignedV 7] (first_line ''u 1 -1''))
       = Throw ''Invalid value type for parameter u in line 1 of file parameters.txt''"
proof -
  let ?a = "first_line ''x 1e+5''" and ?b = "first_line ''x 1''"
  let ?c = "first_line ''x 1 1e+5''" and ?d = "first_line ''u 1 -1''"
  have a: "ready (line ?a)" "rest (line ?a) = join [] @ '' '' @ ''1e+5'' @ []"
    and na: "name ?a = ''x''" "count ?a = 1" "filename ?a = ''parameters.txt''"
    by (simp_all add: first_line_plus ready_def)
  have b: "ready (line ?b)" "rest (line ?b) = join [] @ '' '' @ ''1'' @ []"
    by (simp_all add: first_line_x1 ready_def)
  have c: "ready (line ?c)" "rest (line ?c) = join [('' '', ''1'')] @ '' '' @ ''1e+5'' @ []"
    and nc: "name ?c = ''x''" "count ?c = 1" "filename ?c = ''parameters.txt''"
    by (simp_all add: first_line_x1_plus ready_def)
  have d: "ready (line ?d)" "rest (line ?d) = join [('' '', ''1'')] @ '' '' @ ''-1'' @ []"
    and nd: "name ?d = ''u''" "count ?d = 1" "filename ?d = ''parameters.txt''"
    by (simp_all add: first_line_u ready_def)
  have tok: "'' '' \<noteq> []" "blank '' ''" "token ''1e+5''" "token ''1''" "delimited []"
    "separated []" "separated [('' '', ''1'')]" "token ''-1''"
    by (simp_all add: token_defs)
  have plus: "\<exists>c\<in>set ''1e+5''. \<not> isalnum c \<and> c \<noteq> CHR ''.'' \<and> c \<noteq> CHR ''-''"
    by (simp add: isalnum_def isdigit_def)
  have one: "\<forall>c\<in>set ''1''. isalnum c \<or> c = CHR ''.'' \<or> c = CHR ''-''"
    and minus: "\<forall>c\<in>set ''-1''. isalnum c \<or> c = CHR ''.'' \<or> c = CHR ''-''"
    by (simp_all add: isalnum_def isdigit_def)
  have cv: "fst (convert TDouble None ?b ''1'') = Done"
    by (simp add: convert_def parse_double_1 checkerror_def)
  have cm: "convert TUnsigned None ?d ''-1'' = (Throw (errorParseValue ?d), None)"
    by (simp add: convert_def parse_double_minus_1)
  have none: "list_all2 (clean TDouble None ?a) (map snd []) []"
    "list_all2 (clean TDouble None ?b) (map snd []) []"
    by simp_all
  have c1: "list_all2 (clean TDouble None ?c) (map snd [('' '', ''1'')]) [DoubleV 1]"
    by (simp add: clean_double parse_double_1 isalnum_def isdigit_def)
  have u1: "list_all2 (clean TUnsigned None ?d) (map snd [('' '', ''1'')]) [UnsignedV 1]"
    by (simp add: clean_unsigned_1)
  from value_token_characters [OF a tok(6,1,2,3,5) none(1),
         where str = "[]" and old = "DoubleV 7" and n = 1 and mem = "\<lambda>_ _. True"
           and checks = None and olds = "[]"] plus
  have "\<not> fst (readnext (line ?a) [])"
    and "fst (readvalue TDouble None (DoubleV 7) ?a)
       = Throw ''Could not read value for parameter x in line 1 of file parameters.txt''"
    and "fst (snd (readvalue TDouble None (DoubleV 7) ?a)) = DoubleV 7"
    by (simp_all add: na to_string_1)
  moreover
  from value_token_characters [OF b tok(6,1,2,4,5) none(2),
         where str = "[]" and old = "DoubleV 7" and n = 1 and mem = "\<lambda>_ _. True"
           and checks = None and olds = "[]"] one cv
  have "fst (readnext (line ?b) [])" and "fst (read TDouble None ?b) = Done"
    by simp_all
  moreover
  from value_token_characters [OF c tok(7,1,2,3,5) c1,
         where str = "[]" and old = "DoubleV 7" and n = 2 and mem = "\<lambda>_ _. True"
           and checks = None and olds = "[DoubleV 7]"] plus
  have "fst (readvalues (\<lambda>_ _. True) TDouble 2 None None [DoubleV 7] ?c)
       = Throw ''Could not read value for parameter x in line 1 of file parameters.txt''"
    and "fst (snd (readvalues (\<lambda>_ _. True) TDouble 2 None None [DoubleV 7] ?c)) = [DoubleV 1]"
    by (simp_all add: nc to_string_1 reserved_def)
  moreover
  from value_token_characters [OF d tok(7,1,2,8,5) u1,
         where str = "[]" and old = "UnsignedV 7" and n = 2 and mem = "\<lambda>_ _. True"
           and checks = None and olds = "[UnsignedV 7]"] minus
  have "fst (readvalues (\<lambda>_ _. True) TUnsigned 2 None None [UnsignedV 7] ?d)
       = Throw ''Invalid value type for parameter u in line 1 of file parameters.txt''"
    by (simp add: nd to_string_1 reserved_def cm errorParseValue_def)
  ultimately show ?thesis
    using parse_double_1e5 by simp
qed

subsection \<open>Boolean destinations\<close>

lemma bool_rejected:
  assumes "x \<noteq> 0" "x \<noteq> 1"
  shows "rat_of_int \<lfloor>x\<rfloor> \<noteq> x \<or> x < 0 \<or> 1 < x"
proof (rule ccontr)
  assume "\<not> (rat_of_int \<lfloor>x\<rfloor> \<noteq> x \<or> x < 0 \<or> 1 < x)"
  then have i: "rat_of_int \<lfloor>x\<rfloor> = x" and "0 \<le> x" "x \<le> 1" by simp_all
  then have "0 \<le> \<lfloor>x\<rfloor>" "\<lfloor>x\<rfloor> \<le> 1" by (simp_all add: floor_le_iff)
  then have "\<lfloor>x\<rfloor> = 0 \<or> \<lfloor>x\<rfloor> = 1" by linarith
  with i assms show False by auto
qed

lemma convert_bool:
  assumes "parse_double t = Some x"
  shows "convert TBool check rp t =
           (if x = 0 \<or> x = 1
            then (checkerror rp (case check of Some f \<Rightarrow> f (BoolV (x = 1)) | None \<Rightarrow> []),
                  Some (BoolV (x = 1)))
            else (Throw (errorParseValue rp), None))"
proof (cases "x = 0 \<or> x = 1")
  case True
  then show ?thesis
    using assms by (auto simp: convert_def isfinite_def split: option.splits)
next
  case False
  then have "rat_of_int \<lfloor>x\<rfloor> \<noteq> x \<or> x < 0 \<or> 1 < x"
    using bool_rejected [of x] by blast
  with False show ?thesis
    using assms by (auto simp: convert_def)
qed

lemma parse_double_half: "parse_double ''0.5'' = Some (1 / 2)"
  by code_simp

lemma parse_double_2: "parse_double ''2'' = Some 2"
  by code_simp

lemma first_line_b_half: "first_line ''b 0.5'' =
  \<lparr>filename = ''parameters.txt'', infile = \<lparr>rest = [], eofbit = True, failbit = False\<rparr>,
   is_open = True, count = 1, empty = False, comment = False,
   line = \<lparr>rest = '' 0.5'', eofbit = False, failbit = False\<rparr>,
   line_str = ''b 0.5'', name = ''b''\<rparr>"
  by (simp add: first_line_def eval_defs)

lemma first_line_b_2: "first_line ''b 2'' =
  \<lparr>filename = ''parameters.txt'', infile = \<lparr>rest = [], eofbit = True, failbit = False\<rparr>,
   is_open = True, count = 1, empty = False, comment = False,
   line = \<lparr>rest = '' 2'', eofbit = False, failbit = False\<rparr>,
   line_str = ''b 2'', name = ''b''\<rparr>"
  by (simp add: first_line_def eval_defs)

lemma first_line_b_1: "first_line ''b 1'' =
  \<lparr>filename = ''parameters.txt'', infile = \<lparr>rest = [], eofbit = True, failbit = False\<rparr>,
   is_open = True, count = 1, empty = False, comment = False,
   line = \<lparr>rest = '' 1'', eofbit = False, failbit = False\<rparr>,
   line_str = ''b 1'', name = ''b''\<rparr>"
  by (simp add: first_line_def eval_defs)

text \<open>
  C6, as the code has it: \<open>bool\<close> is an integral and an unsigned type, so the test
  that the value equals its floor and the test that it is not negative run for a
  boolean destination as well, before the test that it does not exceed 1 (the comment in
  \<open>read\<close> says so). For a token that \<open>readnext\<close> accepts and that parses as \<open>x\<close>:
  a value above 1 is rejected with the invalid-value-type error; so is every value
  other than 0 and 1, fractions between 0 and 1 included, and the destination keeps
  its value; 0 and 1 are stored as false and true.
\<close>

theorem bool_destination:
  assumes "good (line rp)" and "rest (line rp) = w @ t @ r" and "blank w" and "token t"
    and "delimited r" and "\<not> invalid_char t" and "parse_double t = Some x"
  shows "(1 < x \<longrightarrow>
            fst (readvalue TBool check old rp) =
              Throw (''Invalid value type for parameter '' @ name rp @ '' in line ''
                       @ to_string (unat (count rp)) @ '' of file '' @ filename rp))
       \<and> (x \<noteq> 0 \<and> x \<noteq> 1 \<longrightarrow>
            fst (readvalue TBool check old rp) =
              Throw (''Invalid value type for parameter '' @ name rp @ '' in line ''
                       @ to_string (unat (count rp)) @ '' of file '' @ filename rp)
            \<and> fst (snd (readvalue TBool check old rp)) = old)
       \<and> (x = 0 \<or> x = 1 \<longrightarrow>
            fst (readvalue TBool check old rp) \<noteq> Throw (errorParseValue rp)
            \<and> fst (snd (readvalue TBool check old rp)) = BoolV (x = 1))"
proof -
  note rv = readvalue_token [OF assms(1-5), of TBool check old]
  note cv = convert_bool [OF assms(7), of check rp]
  have rej: "fst (readvalue TBool check old rp) =
              Throw (''Invalid value type for parameter '' @ name rp @ '' in line ''
                       @ to_string (unat (count rp)) @ '' of file '' @ filename rp)
            \<and> fst (snd (readvalue TBool check old rp)) = old"
    if "x \<noteq> 0 \<and> x \<noteq> 1"
    using that assms(6) by (simp add: rv cv assign_def errorParseValue_def)
  have acc: "fst (readvalue TBool check old rp) \<noteq> Throw (errorParseValue rp)
            \<and> fst (snd (readvalue TBool check old rp)) = BoolV (x = 1)"
    if "x = 0 \<or> x = 1"
  proof -
    from that have c: "convert TBool check rp t =
        (checkerror rp (case check of Some f \<Rightarrow> f (BoolV (x = 1)) | None \<Rightarrow> []), Some (BoolV (x = 1)))"
      by (simp add: cv)
    have "fst (snd (readvalue TBool check old rp)) = BoolV (x = 1)"
      using assms(6) by (simp add: rv c assign_def)
    moreover have "fst (readvalue TBool check old rp) \<noteq> Throw (errorParseValue rp)"
      using assms(6) message_distinct(3) [of rp rp] message_distinct(5) [of rp _ rp]
      by (auto simp add: rv c)
    ultimately show ?thesis by simp
  qed
  have "1 < x \<Longrightarrow> x \<noteq> 0 \<and> x \<noteq> 1" by simp
  with rej acc show ?thesis by blast
qed

text \<open>
  The witness reads the lines \<open>b 2\<close> and \<open>b 1\<close> into a boolean.
\<close>

theorem bool_destination_witness:
  "fst (readvalue TBool None (BoolV False) (first_line ''b 2''))
     = Throw ''Invalid value type for parameter b in line 1 of file parameters.txt''
   \<and> fst (snd (readvalue TBool None (BoolV False) (first_line ''b 2''))) = BoolV False
   \<and> fst (snd (readvalue TBool None (BoolV False) (first_line ''b 1''))) = BoolV True"
proof -
  let ?a = "first_line ''b 2''" and ?b = "first_line ''b 1''"
  have a: "good (line ?a)" "rest (line ?a) = '' '' @ ''2'' @ []"
    and na: "name ?a = ''b''" "count ?a = 1" "filename ?a = ''parameters.txt''"
    by (simp_all add: first_line_b_2 good_def)
  have b: "good (line ?b)" "rest (line ?b) = '' '' @ ''1'' @ []"
    by (simp_all add: first_line_b_1 good_def)
  have tok: "blank '' ''" "token ''2''" "token ''1''" "delimited []"
    "\<not> invalid_char ''2''" "\<not> invalid_char ''1''"
    by (simp_all add: token_defs)
  from bool_destination [OF a tok(1,2,4,5) parse_double_2, of None "BoolV False"]
       bool_destination [OF b tok(1,3,4,6) parse_double_1, of None "BoolV False"]
  show ?thesis
    by (simp add: na to_string_1)
qed

text \<open>
  C6 as stated fails on the line \<open>b 0.5\<close>: reading the token \<open>0.5\<close> into a boolean
  does not succeed, it throws the invalid-value-type error.
\<close>

theorem bool_fraction_counterexample:
  "fst (readvalue TBool None (BoolV False) (first_line ''b 0.5''))
     = Throw ''Invalid value type for parameter b in line 1 of file parameters.txt''"
proof -
  let ?a = "first_line ''b 0.5''"
  have a: "good (line ?a)" "rest (line ?a) = '' '' @ ''0.5'' @ []"
    and na: "name ?a = ''b''" "count ?a = 1" "filename ?a = ''parameters.txt''"
    by (simp_all add: first_line_b_half good_def)
  have tok: "blank '' ''" "token ''0.5''" "delimited []" "\<not> invalid_char ''0.5''"
    by (simp_all add: token_defs)
  have "convert TBool None ?a ''0.5'' = (Throw (errorParseValue ?a), None)"
    by (simp add: convert_bool [OF parse_double_half])
  with tok(4) show ?thesis
    by (simp add: readvalue_token [OF a tok(1,2,3)] errorParseValue_def na to_string_1)
qed

subsection \<open>The scalar destination after a failed read\<close>

lemma readnext_ok:
  assumes "readnext l str = (True, l', temp)"
  shows "temp = next_token l"
  using assms
  by (auto simp: readnext_def extract_string_def next_token_def fail_def Let_def
      split: if_splits)

lemma convert_cases:
  "convert T check rp t = (Throw (errorParseValue rp), None)
   \<or> convert T check rp t = (Undefined, None)
   \<or> (\<exists>x v. parse_double t = Some x \<and> static_cast T x = Some v
          \<and> convert T check rp t
              = (checkerror rp (case check of Some f \<Rightarrow> f v | None \<Rightarrow> []), Some v))"
  by (auto simp: convert_def Let_def split: option.splits)

lemma read_cases:
  "\<exists>l. read T check rp = (Throw (errorReadValue rp), None, rp\<lparr>line := l\<rparr>)
     \<or> read T check rp = (Throw (errorParseValue rp), None, rp\<lparr>line := l\<rparr>)
     \<or> read T check rp = (Undefined, None, rp\<lparr>line := l\<rparr>)
     \<or> (\<exists>x v. parse_double (next_token (line rp)) = Some x \<and> static_cast T x = Some v
           \<and> read T check rp
               = (checkerror rp (case check of Some f \<Rightarrow> f v | None \<Rightarrow> []), Some v,
                  rp\<lparr>line := l\<rparr>))"
proof -
  obtain ok l temp where rn: "readnext (line rp) [] = (ok, l, temp)"
    by (metis prod_cases3)
  show ?thesis
  proof (cases ok)
    case False
    with rn have "read T check rp = (Throw (errorReadValue rp), None, rp\<lparr>line := l\<rparr>)"
      by (simp add: read_def)
    then show ?thesis by blast
  next
    case True
    with rn have temp: "temp = next_token (line rp)"
      by (simp add: readnext_ok)
    from rn True have rd: "read T check rp =
        (fst (convert T check rp temp), snd (convert T check rp temp), rp\<lparr>line := l\<rparr>)"
      by (simp add: read_def split: prod.splits)
    from convert_cases [of T check rp temp] show ?thesis
      unfolding rd temp by (elim disjE exE conjE) (simp; blast)+
  qed
qed

lemma iseol_line: "\<exists>l. snd (iseol rp) = rp\<lparr>line := l\<rparr>"
  by (auto simp: iseol_def split: prod.splits)

lemma checkerror_cases: "checkerror rp e = Done \<and> e = [] \<or> (e \<noteq> [] \<and> checkerror rp e \<noteq> Done)"
  by (simp add: checkerror_def)

lemma checkerror_inject:
  assumes "checkerror rp e = checkerror rp e'"
  shows "e = e'"
proof (cases "e = []")
  case True
  with assms show ?thesis by (simp add: checkerror_def split: if_splits)
next
  case False
  with assms have "e' \<noteq> []" and "e @ '' in line '' @ to_string (unat (count rp)) @ '' of file '' @ filename rp
       = e' @ '' in line '' @ to_string (unat (count rp)) @ '' of file '' @ filename rp"
    by (simp_all add: checkerror_def split: if_splits)
  then show ?thesis by simp
qed

lemma parse_double_0: "parse_double ''0'' = Some 0"
  by code_simp

lemma first_line_ngenes: "first_line ''ngenes 0'' =
  \<lparr>filename = ''parameters.txt'', infile = \<lparr>rest = [], eofbit = True, failbit = False\<rparr>,
   is_open = True, count = 1, empty = False, comment = False,
   line = \<lparr>rest = '' 0'', eofbit = False, failbit = False\<rparr>,
   line_str = ''ngenes 0'', name = ''ngenes''\<rparr>"
  by (simp add: first_line_def eval_defs)

lemma static_cast_int_small:
  "static_cast TInt 0 = Some (IntV 0)" "static_cast TInt 1 = Some (IntV 1)"
  by (simp_all add: trunc_def)

text \<open>
  C10: \<open>read\<close> assigns the destination after the token is fetched, parsed and checked
  against the type, and before the caller's checker and the end-of-line test run. So
  whenever \<open>readvalue\<close> throws the could-not-read-value or the invalid-value-type
  error, the destination is what it was. Whenever it throws the too-many-values error,
  the next token of the line parsed as some \<open>x\<close>, the checker accepted the converted
  value, and the destination holds that value. Whenever it throws the error made from a
  checker's message \<open>e\<close>, the destination holds the converted value that the checker
  refused with \<open>e\<close>.
\<close>

theorem readvalue_destination:
  "(fst (readvalue T check old rp) = Throw (errorReadValue rp)
      \<or> fst (readvalue T check old rp) = Throw (errorParseValue rp)
     \<longrightarrow> fst (snd (readvalue T check old rp)) = old)
   \<and> (fst (readvalue T check old rp) = Throw (errorTooManyValues rp)
     \<longrightarrow> (\<exists>x v. parse_double (next_token (line rp)) = Some x \<and> static_cast T x = Some v
            \<and> (case check of Some f \<Rightarrow> f v | None \<Rightarrow> []) = []
            \<and> fst (snd (readvalue T check old rp)) = v))
   \<and> (\<forall>e. e \<noteq> [] \<and> fst (readvalue T check old rp) = checkerror rp e
     \<longrightarrow> (\<exists>x v f. parse_double (next_token (line rp)) = Some x \<and> static_cast T x = Some v
            \<and> check = Some f \<and> f v = e
            \<and> fst (snd (readvalue T check old rp)) = v))"
proof -
  from read_cases [of T check rp] obtain l where
    cases: "read T check rp = (Throw (errorReadValue rp), None, rp\<lparr>line := l\<rparr>)
     \<or> read T check rp = (Throw (errorParseValue rp), None, rp\<lparr>line := l\<rparr>)
     \<or> read T check rp = (Undefined, None, rp\<lparr>line := l\<rparr>)
     \<or> (\<exists>x v. parse_double (next_token (line rp)) = Some x \<and> static_cast T x = Some v
           \<and> read T check rp
               = (checkerror rp (case check of Some f \<Rightarrow> f v | None \<Rightarrow> []), Some v,
                  rp\<lparr>line := l\<rparr>))"
    by blast
  let ?rp1 = "rp\<lparr>line := l\<rparr>"
  from iseol_line [of ?rp1] obtain l' where eol: "snd (iseol ?rp1) = rp\<lparr>line := l'\<rparr>"
    by auto
  from cases show ?thesis
  proof (elim disjE exE conjE)
    assume rd: "read T check rp = (Throw (errorReadValue rp), None, ?rp1)"
    then have rv: "readvalue T check old rp = (Throw (errorReadValue rp), old, ?rp1)"
      by (simp add: readvalue_def assign_def)
    have 1: "fst (readvalue T check old rp) \<noteq> Throw (errorTooManyValues rp)"
      using message_distinct(2) [of rp rp] by (simp add: rv)
    have 2: "fst (readvalue T check old rp) \<noteq> checkerror rp e" for e
      using message_distinct(4) [of rp e rp] by (simp add: rv)
    have 3: "fst (snd (readvalue T check old rp)) = old"
      by (simp add: rv)
    from 1 2 3 show ?thesis by blast
  next
    assume rd: "read T check rp = (Throw (errorParseValue rp), None, ?rp1)"
    then have rv: "readvalue T check old rp = (Throw (errorParseValue rp), old, ?rp1)"
      by (simp add: readvalue_def assign_def)
    have 1: "fst (readvalue T check old rp) \<noteq> Throw (errorTooManyValues rp)"
      using message_distinct(3) [of rp rp] by (simp add: rv)
    have 2: "fst (readvalue T check old rp) \<noteq> checkerror rp e" for e
      using message_distinct(5) [of rp e rp] by (simp add: rv)
    have 3: "fst (snd (readvalue T check old rp)) = old"
      by (simp add: rv)
    from 1 2 3 show ?thesis by blast
  next
    assume rd: "read T check rp = (Undefined, None, ?rp1)"
    then have rv: "readvalue T check old rp = (Undefined, old, ?rp1)"
      by (simp add: readvalue_def assign_def)
    have 1: "fst (readvalue T check old rp) \<noteq> Throw m" for m
      by (simp add: rv)
    have 2: "e \<noteq> [] \<Longrightarrow> fst (readvalue T check old rp) \<noteq> checkerror rp e" for e
      by (simp add: rv checkerror_def)
    from 1 2 show ?thesis by blast
  next
    fix x v
    let ?e = "case check of Some f \<Rightarrow> f v | None \<Rightarrow> []"
    assume p: "parse_double (next_token (line rp)) = Some x" and c: "static_cast T x = Some v"
      and rd: "read T check rp = (checkerror rp ?e, Some v, ?rp1)"
    show ?thesis
    proof (cases "?e = []")
      case True
      then have d: "checkerror rp ?e = Done" by (simp add: checkerror_def)
      obtain b where ie: "iseol ?rp1 = (b, rp\<lparr>line := l'\<rparr>)"
        using eol by (cases "iseol ?rp1") simp
      have rv: "readvalue T check old rp =
          (if b then Done else Throw (errorTooManyValues rp), v, rp\<lparr>line := l'\<rparr>)"
        by (simp add: readvalue_def rd d assign_def ie)
      have 1: "fst (readvalue T check old rp) \<noteq> Throw (errorReadValue rp)"
        "fst (readvalue T check old rp) \<noteq> Throw (errorParseValue rp)"
        using message_distinct(2) [of rp rp] message_distinct(3) [of rp rp]
        by (auto simp: rv)
      have 2: "e \<noteq> [] \<Longrightarrow> fst (readvalue T check old rp) \<noteq> checkerror rp e" for e
        using message_distinct(6) [of rp e rp]
        by (auto simp: rv checkerror_def)
      have 3: "fst (snd (readvalue T check old rp)) = v"
        by (simp add: rv)
      from 1 2 3 p c True show ?thesis by blast
    next
      case False
      then obtain f where f: "check = Some f" and fv: "f v \<noteq> []" "?e = f v"
        by (cases check) auto
      from False have nd: "checkerror rp ?e \<noteq> Done" by (simp add: checkerror_def)
      then have rv: "readvalue T check old rp = (checkerror rp ?e, v, ?rp1)"
        by (simp add: readvalue_def rd assign_def)
      have 1: "fst (readvalue T check old rp) \<noteq> Throw (errorReadValue rp)"
        "fst (readvalue T check old rp) \<noteq> Throw (errorParseValue rp)"
        "fst (readvalue T check old rp) \<noteq> Throw (errorTooManyValues rp)"
        using message_distinct(4-6) [of rp ?e rp]
        by (simp_all add: rv)
      have 2: "fst (readvalue T check old rp) = checkerror rp e \<Longrightarrow> f v = e" for e
        using checkerror_inject [of rp "f v" e] by (simp add: rv fv(2))
      have 3: "fst (snd (readvalue T check old rp)) = v"
        by (simp add: rv)
      from 1 2 3 p c f show ?thesis by blast
    qed
  qed
qed

text \<open>
  The witness: the token \<open>1e+5\<close> is refused and the destination keeps 7; on the line
  \<open>y 1 \<close> the read throws the too-many-values error and the destination holds 1; on
  the line \<open>ngenes 0\<close> the checker of the example program refuses 0 and the
  destination holds 0.
\<close>

theorem readvalue_destination_witness:
  "fst (readvalue TDouble None (DoubleV 7) (first_line ''x 1e+5''))
     = Throw ''Could not read value for parameter x in line 1 of file parameters.txt''
   \<and> fst (snd (readvalue TDouble None (DoubleV 7) (first_line ''x 1e+5''))) = DoubleV 7
   \<and> fst (readvalue TInt None (IntV 7) (first_line ''y 1 ''))
     = Throw ''Too many values for parameter y in line 1 of file parameters.txt''
   \<and> fst (snd (readvalue TInt None (IntV 7) (first_line ''y 1 ''))) = IntV 1
   \<and> fst (readvalue TInt (Some checkstrictpos) (IntV 7) (first_line ''ngenes 0''))
     = Throw ''Parameter ngenes must be strictly positive in line 1 of file parameters.txt''
   \<and> fst (snd (readvalue TInt (Some checkstrictpos) (IntV 7) (first_line ''ngenes 0''))) = IntV 0"
proof -
  let ?a = "first_line ''x 1e+5''" and ?b = "first_line ''y 1 ''" and ?c = "first_line ''ngenes 0''"
  have tok: "blank '' ''" "token ''1e+5''" "token ''1''" "token ''0''" "delimited []" "delimited '' ''"
    "invalid_char ''1e+5''" "\<not> invalid_char ''1''" "\<not> invalid_char ''0''"
    by (simp_all add: token_defs)
  \<comment> \<open>the token is refused: the destination is unchanged\<close>
  have a: "good (line ?a)" "rest (line ?a) = '' '' @ ''1e+5'' @ []"
    by (simp_all add: first_line_plus good_def)
  have ea: "fst (readvalue TDouble None (DoubleV 7) ?a) = Throw (errorReadValue ?a)"
    using tok(7) by (simp add: readvalue_token [OF a tok(1,2,5)] del: invalid_char.simps)
  with readvalue_destination [of TDouble None "DoubleV 7" ?a]
  have da: "fst (snd (readvalue TDouble None (DoubleV 7) ?a)) = DoubleV 7"
    by blast
  \<comment> \<open>too many values: the destination holds the new value\<close>
  have b: "good (line ?b)" "rest (line ?b) = '' '' @ ''1'' @ '' ''"
    and nb: "next_token (line ?b) = ''1''"
    by (simp_all add: first_line_y good_def next_token_def isspace_def)
  have cb: "convert TInt None ?b ''1'' = (Done, Some (IntV 1))"
    by (simp add: convert_def parse_double_1 isfinite_def static_cast_int_small checkerror_def
          del: static_cast.simps)
  have eb: "fst (readvalue TInt None (IntV 7) ?b) = Throw (errorTooManyValues ?b)"
    using tok(8) by (simp add: readvalue_token [OF b tok(1,3,6)] cb del: invalid_char.simps)
  with readvalue_destination [of TInt None "IntV 7" ?b]
  have "\<exists>x v. parse_double (next_token (line ?b)) = Some x \<and> static_cast TInt x = Some v
            \<and> fst (snd (readvalue TInt None (IntV 7) ?b)) = v"
    by blast
  then have db: "fst (snd (readvalue TInt None (IntV 7) ?b)) = IntV 1"
    by (auto simp: nb parse_double_1 static_cast_int_small simp del: static_cast.simps)
  \<comment> \<open>the checker refuses the value: the destination holds the new value\<close>
  have c: "good (line ?c)" "rest (line ?c) = '' '' @ ''0'' @ []"
    and nc: "next_token (line ?c) = ''0''"
    by (simp_all add: first_line_ngenes good_def next_token_def isspace_def)
  have cc: "convert TInt (Some checkstrictpos) ?c ''0''
      = (checkerror ?c ''must be strictly positive'', Some (IntV 0))"
    by (simp add: convert_def parse_double_0 isfinite_def static_cast_int_small checkstrictpos_def
          del: static_cast.simps)
  have nd: "checkerror ?c ''must be strictly positive'' \<noteq> Done"
    by (simp add: checkerror_def)
  have ec: "fst (readvalue TInt (Some checkstrictpos) (IntV 7) ?c)
      = checkerror ?c ''must be strictly positive''"
    using tok(9) nd by (simp add: readvalue_token [OF c tok(1,4,5)] cc del: invalid_char.simps)
  with readvalue_destination [of TInt "Some checkstrictpos" "IntV 7" ?c]
  have "\<exists>x v. parse_double (next_token (line ?c)) = Some x \<and> static_cast TInt x = Some v
            \<and> fst (snd (readvalue TInt (Some checkstrictpos) (IntV 7) ?c)) = v"
    by blast
  then have dc: "fst (snd (readvalue TInt (Some checkstrictpos) (IntV 7) ?c)) = IntV 0"
    by (auto simp: nc parse_double_0 static_cast_int_small simp del: static_cast.simps)
  have msg: "errorReadValue ?a = ''Could not read value for parameter x in line 1 of file parameters.txt''"
    "errorTooManyValues ?b = ''Too many values for parameter y in line 1 of file parameters.txt''"
    "checkerror ?c ''must be strictly positive''
       = Throw ''Parameter ngenes must be strictly positive in line 1 of file parameters.txt''"
    by (simp_all add: errorReadValue_def errorTooManyValues_def checkerror_def
          first_line_plus first_line_y first_line_ngenes to_string_1)
  from ea da eb db ec dc show ?thesis
    by (simp add: msg)
qed

subsection \<open>Opening the file\<close>

text \<open>
  C7: on a reader that is not open yet, \<open>open()\<close> throws the unable-to-open error
  when the path cannot be opened, and the file-is-empty error when the file has no
  byte; on a file with at least one byte a fresh reader (line counter 0) opens. Whenever
  \<open>open()\<close> returns, the reader is open, not at the end of the file, and its line
  counter is 0.
\<close>

theorem open_file_outcomes:
  assumes "\<not> is_open rp"
  shows "(fs (filename rp) = None \<longrightarrow>
            fst (open_file fs rp) = Throw (''Unable to open file '' @ filename rp))
       \<and> (fs (filename rp) = Some [] \<longrightarrow>
            fst (open_file fs rp) = Throw (''File '' @ filename rp @ '' is empty''))
       \<and> (\<forall>c cs. fs (filename rp) = Some (c # cs) \<and> count rp = 0 \<longrightarrow>
            fst (open_file fs rp) = Done)
       \<and> (fst (open_file fs rp) = Done \<longrightarrow>
            isopen (snd (open_file fs rp)) \<and> \<not> fst (iseof (snd (open_file fs rp)))
            \<and> getcount (snd (open_file fs rp)) = 0)"
proof (cases "fs (filename rp)")
  case None
  with assms show ?thesis
    by (simp add: open_file_def ifstream_open_def isopen_def errorOpenFile_def)
next
  case (Some content)
  show ?thesis
  proof (cases content)
    case Nil
    with Some assms show ?thesis
      by (simp add: open_file_def ifstream_open_def isopen_def iseof_def peek_def good_def
            errorEmptyFile_def)
  next
    case (Cons c cs)
    with Some assms show ?thesis
      by (simp add: open_file_def ifstream_open_def isopen_def iseof_def peek_def good_def
            getcount_def)
  qed
qed

text \<open>
  The witness opens \<open>parameters.txt\<close> where no file exists, where the file is empty,
  and where it holds \<open>ngenes 4\<close>.
\<close>

theorem open_file_outcomes_witness:
  "fst (open_file Map.empty (new_ReadPars ''parameters.txt'')) = Throw ''Unable to open file parameters.txt''
   \<and> fst (open_file [''parameters.txt'' \<mapsto> []] (new_ReadPars ''parameters.txt''))
       = Throw ''File parameters.txt is empty''
   \<and> fst (open_file [''parameters.txt'' \<mapsto> ''ngenes 4''] (new_ReadPars ''parameters.txt'')) = Done
   \<and> isopen (snd (open_file [''parameters.txt'' \<mapsto> ''ngenes 4''] (new_ReadPars ''parameters.txt'')))
   \<and> \<not> fst (iseof (snd (open_file [''parameters.txt'' \<mapsto> ''ngenes 4''] (new_ReadPars ''parameters.txt''))))
   \<and> getcount (snd (open_file [''parameters.txt'' \<mapsto> ''ngenes 4''] (new_ReadPars ''parameters.txt''))) = 0"
proof -
  let ?rp = "new_ReadPars ''parameters.txt''"
  have n: "\<not> is_open ?rp" and f: "filename ?rp = ''parameters.txt''" and c: "count ?rp = 0"
    by (simp_all add: new_ReadPars_def)
  from open_file_outcomes [OF n, of Map.empty]
       open_file_outcomes [OF n, of "[''parameters.txt'' \<mapsto> []]"]
       open_file_outcomes [OF n, of "[''parameters.txt'' \<mapsto> ''ngenes 4'']"]
  show ?thesis
    by (simp add: f c)
qed

subsection \<open>A parameter without a value\<close>

lemma getline_stream_line:
  assumes "good s" "rest s = L @ tail" "CHR 0x0A \<notin> set L" "L \<noteq> []"
    and "tail = [] \<or> hd tail = CHR 0x0A"
  shows "snd (getline_stream s str) = L" "\<exists>f. fst (getline_stream s str) = f"
proof -
  from assms(3) have t: "takeWhile (\<lambda>c. c \<noteq> CHR 0x0A) (L @ tail) = L @ takeWhile (\<lambda>c. c \<noteq> CHR 0x0A) tail"
    by (intro takeWhile_append2) auto
  from assms(5) have "takeWhile (\<lambda>c. c \<noteq> CHR 0x0A) tail = []"
    by (cases tail) auto
  with t assms(1,2) show "snd (getline_stream s str) = L"
    by (simp add: getline_stream_def Let_def split: list.splits)
  show "\<exists>f. fst (getline_stream s str) = f" by simp
qed

lemma readline_line:
  assumes "is_open rp" and "good (infile rp)" and "rest (infile rp) = w @ t @ r @ tail"
    and "CHR 0x0A \<notin> set (w @ t @ r)" and "tail = [] \<or> hd tail = CHR 0x0A"
    and "blank w" and "token t" and "delimited r" and "hd (w @ t) \<noteq> CHR ''#''"
  shows "fst (readline rp) =
           (if invalid_char t then Throw (errorReadName (snd (readline rp)))
            else if r = [] then Throw (errorNoValue (snd (readline rp)))
            else Done)"
    and "name (snd (readline rp)) = t"
    and "count (snd (readline rp)) = count rp + 1"
    and "filename (snd (readline rp)) = filename rp"
    and "\<not> invalid_char t \<Longrightarrow> r \<noteq> [] \<Longrightarrow>
           line (snd (readline rp)) = \<lparr>rest = r, eofbit = False, failbit = False\<rparr>"
proof -
  let ?L = "w @ t @ r"
  from assms(7) have tne: "t \<noteq> []" by (simp add: token_def)
  then have Lne: "?L \<noteq> []" by simp
  from assms(3) have rest: "rest (infile rp) = ?L @ tail" by simp
  from tne assms(3) have "rest (infile rp) \<noteq> []" by simp
  then obtain c cs where cs: "rest (infile rp) = c # cs"
    by (cases "rest (infile rp)") simp_all
  with assms(2) have eof: "iseof rp = (False, rp)"
    by (simp add: iseof_def peek_def)
  obtain f where gl: "getline_stream (infile rp) [] = (f, ?L)"
    using getline_stream_line(1) [OF assms(2) rest assms(4) Lne assms(5), of "[]"]
    by (cases "getline_stream (infile rp) []") auto
  from tne assms(9) have hash: "(case ?L of [] \<Rightarrow> False | c # _ \<Rightarrow> c = CHR ''#'') = False"
    by (cases w; cases t) auto
  let ?l = "\<lparr>rest = ?L, eofbit = False, failbit = False\<rparr>"
  have lg: "good ?l" "rest ?l = w @ t @ r" by (simp_all add: good_def)
  note rn = readnext_token [OF lg assms(6,7,8), of "[]"]
  let ?rp7 = "rp\<lparr>infile := f, empty := False, comment := False, line_str := ?L,
      count := count rp + 1\<rparr>"
  let ?rp8 = "rp\<lparr>infile := f, empty := False, comment := False, line_str := ?L,
      count := count rp + 1, line := \<lparr>rest = r, eofbit = (r = []), failbit = False\<rparr>, name := t\<rparr>"
  have A: "readline rp =
      (let (ok, l, nm) = readnext ?l [];
           rp8 = ?rp7\<lparr>line := l, name := nm\<rparr>
       in if \<not> ok then (Throw (errorReadName rp8), rp8)
          else let (eol, rp9) = iseol rp8 in
            if eol then (Throw (errorNoValue rp9), rp9) else (Done, rp9))"
    using assms(1) tne
    by (simp add: readline_def isopen_def eof gl hash reset_def Let_def)
  have B: "readline rp =
      (if invalid_char t then (Throw (errorReadName ?rp8), ?rp8)
       else let (eol, rp9) = iseol ?rp8 in
         if eol then (Throw (errorNoValue rp9), rp9) else (Done, rp9))"
    unfolding A rn by (simp add: Let_def)
  have eol: "iseol ?rp8 =
      (r = [], if r = [] then ?rp8\<lparr>line := \<lparr>rest = [], eofbit = True, failbit = True\<rparr>\<rparr> else ?rp8)"
    by (cases "r = []") (simp_all add: iseol_good iseol_not_good good_def)
  have rl: "readline rp =
      (if invalid_char t then (Throw (errorReadName ?rp8), ?rp8)
       else if r = [] then (Throw (errorNoValue ?rp8), ?rp8\<lparr>line := \<lparr>rest = [], eofbit = True, failbit = True\<rparr>\<rparr>)
       else (Done, ?rp8))"
    unfolding B eol by (simp add: errorNoValue_def)
  show "fst (readline rp) =
           (if invalid_char t then Throw (errorReadName (snd (readline rp)))
            else if r = [] then Throw (errorNoValue (snd (readline rp)))
            else Done)"
    by (simp add: rl errorNoValue_def errorReadName_def)
  show "name (snd (readline rp)) = t" by (simp add: rl)
  show "count (snd (readline rp)) = count rp + 1" by (simp add: rl)
  show "filename (snd (readline rp)) = filename rp" by (simp add: rl)
  show "line (snd (readline rp)) = \<lparr>rest = r, eofbit = False, failbit = False\<rparr>"
    if "\<not> invalid_char t" "r \<noteq> []"
    using that by (simp add: rl)
qed

lemma opened:
  "snd (open_file [''parameters.txt'' \<mapsto> c # cs] (new_ReadPars ''parameters.txt''))
     = (new_ReadPars ''parameters.txt'')
         \<lparr>infile := \<lparr>rest = c # cs, eofbit = False, failbit = False\<rparr>, is_open := True\<rparr>"
  by (simp add: open_file_def ifstream_open_def new_ReadPars_def new_istream_def isopen_def
        iseof_def peek_def good_def)

lemma first_line_x_blank: "first_line ''x '' =
  \<lparr>filename = ''parameters.txt'', infile = \<lparr>rest = [], eofbit = True, failbit = False\<rparr>,
   is_open = True, count = 1, empty = False, comment = False,
   line = \<lparr>rest = '' '', eofbit = False, failbit = False\<rparr>,
   line_str = ''x '', name = ''x''\<rparr>"
  by (simp add: first_line_def eval_defs)

text \<open>
  C5, as the code has it. The reader is open and the next line of the file is
  \<open>w @ t @ r\<close>: the blank \<open>w\<close> (empty as a rule), the token \<open>t\<close>, which is not a
  comment and which \<open>readnext\<close> accepts as the name, and the rest \<open>r\<close>. \<open>readline\<close>
  throws the no-value error exactly when \<open>r\<close> is empty, that is, when not a single
  character follows the name. When anything follows, whitespace included, it returns
  with the name \<open>t\<close>; when only whitespace follows, it is the next \<open>readvalue\<close>
  that fails, with the could-not-read-value error.
\<close>

theorem readline_no_value:
  assumes "is_open rp" and "good (infile rp)" and "rest (infile rp) = w @ t @ r @ tail"
    and "CHR 0x0A \<notin> set (w @ t @ r)" and "tail = [] \<or> hd tail = CHR 0x0A"
    and "blank w" and "token t" and "delimited r" and "hd (w @ t) \<noteq> CHR ''#''"
    and "\<not> invalid_char t"
  shows "(r = [] \<longrightarrow>
            fst (readline rp) =
              Throw (''No value for parameter '' @ t @ '' in line ''
                       @ to_string (unat (count rp + 1)) @ '' of file '' @ filename rp))
       \<and> (r \<noteq> [] \<longrightarrow> fst (readline rp) = Done \<and> getname (snd (readline rp)) = t)
       \<and> (r \<noteq> [] \<and> blank r \<longrightarrow>
            fst (readvalue T check old (snd (readline rp))) =
              Throw (''Could not read value for parameter '' @ t @ '' in line ''
                       @ to_string (unat (count rp + 1)) @ '' of file '' @ filename rp))"
proof -
  note rl = readline_line [OF assms(1-9)]
  let ?s = "snd (readline rp)"
  have "fst (readline rp) =
              Throw (''No value for parameter '' @ t @ '' in line ''
                       @ to_string (unat (count rp + 1)) @ '' of file '' @ filename rp)"
    if "r = []"
    using that assms(10) by (simp add: rl(1) errorNoValue_def rl(2,3,4))
  moreover have "fst (readline rp) = Done \<and> getname ?s = t" if "r \<noteq> []"
    using that assms(10) by (simp add: rl(1,2) getname_def)
  moreover have "fst (readvalue T check old ?s) =
              Throw (''Could not read value for parameter '' @ t @ '' in line ''
                       @ to_string (unat (count rp + 1)) @ '' of file '' @ filename rp)"
    if "r \<noteq> [] \<and> blank r"
  proof -
    from that assms(10) have l: "line ?s = \<lparr>rest = r, eofbit = False, failbit = False\<rparr>"
      by (simp add: rl(5))
    then have "good (line ?s)" "blank (rest (line ?s))"
      using that by (simp_all add: good_def)
    then have "read T check ?s = (Throw (errorReadValue ?s), None,
        ?s\<lparr>line := (line ?s)\<lparr>rest := [], eofbit := True, failbit := True\<rparr>\<rparr>)"
      by (rule read_no_token)
    then show ?thesis
      by (simp add: readvalue_def errorReadValue_def rl(2,3,4))
  qed
  ultimately show ?thesis by blast
qed

text \<open>
  The witness reads the first line of a file that holds \<open>z\<close> and of one that holds
  \<open>ngenes 4\<close>.
\<close>

theorem readline_no_value_witness:
  "fst (readline (snd (open_file [''parameters.txt'' \<mapsto> ''z''] (new_ReadPars ''parameters.txt''))))
     = Throw ''No value for parameter z in line 1 of file parameters.txt''
   \<and> fst (readline (snd (open_file [''parameters.txt'' \<mapsto> ''ngenes 4''] (new_ReadPars ''parameters.txt''))))
     = Done
   \<and> getname (first_line ''ngenes 4'') = ''ngenes''"
proof -
  let ?a = "snd (open_file [''parameters.txt'' \<mapsto> ''z''] (new_ReadPars ''parameters.txt''))"
  let ?b = "snd (open_file [''parameters.txt'' \<mapsto> ''ngenes 4''] (new_ReadPars ''parameters.txt''))"
  have a: "is_open ?a" "good (infile ?a)" "rest (infile ?a) = [] @ ''z'' @ [] @ []"
    and fa: "count ?a = 0" "filename ?a = ''parameters.txt''"
    unfolding opened by (simp_all add: new_ReadPars_def good_def)
  have b: "is_open ?b" "good (infile ?b)" "rest (infile ?b) = [] @ ''ngenes'' @ '' 4'' @ []"
    unfolding opened by (simp_all add: new_ReadPars_def good_def)
  have tok: "CHR 0x0A \<notin> set ([] @ ''z'' @ [])" "CHR 0x0A \<notin> set ([] @ ''ngenes'' @ '' 4'')"
    "([] :: string) = [] \<or> hd ([] :: string) = CHR 0x0A" "blank []" "token ''z''" "token ''ngenes''"
    "delimited []" "delimited '' 4''" "hd ([] @ ''z'') \<noteq> CHR ''#''" "hd ([] @ ''ngenes'') \<noteq> CHR ''#''"
    "\<not> invalid_char ''z''" "\<not> invalid_char ''ngenes''"
    by (simp_all add: token_defs)
  from readline_no_value [OF a tok(1,3,4,5,7,9,11), of TInt None "IntV 0"]
       readline_no_value [OF b tok(2,3,4,6,8,10,12), of TInt None "IntV 0"]
  show ?thesis
    by (simp add: fa to_string_1 first_line_def)
qed

text \<open>
  C5 as stated fails on the line \<open>x \<close>, a name and a trailing space: no token
  follows the name, and yet \<open>readline\<close> returns without the no-value error; the
  error comes from the read that follows, and it is the could-not-read-value error.
\<close>

theorem readline_trailing_whitespace_counterexample:
  "fst (readline (snd (open_file [''parameters.txt'' \<mapsto> ''x ''] (new_ReadPars ''parameters.txt'')))) = Done
   \<and> getname (first_line ''x '') = ''x''
   \<and> blank (rest (line (first_line ''x '')))
   \<and> fst (readvalue TInt None (IntV 0) (first_line ''x ''))
       = Throw ''Could not read value for parameter x in line 1 of file parameters.txt''"
proof -
  have 1: "fst (readline (snd (open_file [''parameters.txt'' \<mapsto> ''x ''] (new_ReadPars ''parameters.txt'')))) = Done"
    by (simp add: eval_defs)
  have g: "good (line (first_line ''x ''))" and b: "blank (rest (line (first_line ''x '')))"
    by (simp_all add: first_line_x_blank good_def blank_def isspace_def)
  have 2: "fst (readvalue TInt None (IntV 0) (first_line ''x ''))
       = Throw (errorReadValue (first_line ''x ''))"
    by (simp add: readvalue_def read_no_token [OF g b])
  have 3: "errorReadValue (first_line ''x '')
       = ''Could not read value for parameter x in line 1 of file parameters.txt''"
    by (simp add: errorReadValue_def first_line_x_blank to_string_1)
  from 1 b 2 3 show ?thesis
    by (simp add: getname_def first_line_x_blank)
qed

subsection \<open>Two sessions on the same file\<close>

lemma open_file_files:
  assumes "fs1 (filename rp) = fs2 (filename rp)"
  shows "open_file fs1 rp = open_file fs2 rp"
  using assms by (simp add: open_file_def ifstream_open_def)

lemma filename_iseof [simp]: "filename (snd (iseof rp)) = filename rp"
  by (simp add: iseof_def split: prod.splits)

lemma filename_iseol [simp]: "filename (snd (iseol rp)) = filename rp"
  by (simp add: iseol_def split: prod.splits)

lemma filename_ifstream_open [simp]: "filename (ifstream_open fs rp) = filename rp"
  by (simp add: ifstream_open_def split: option.splits)

lemma filename_open_file [simp]: "filename (snd (open_file fs rp)) = filename rp"
proof -
  let ?rp1 = "ifstream_open fs rp"
  obtain e rp2 where 1: "iseof ?rp1 = (e, rp2)" by (metis prod.exhaust)
  then have f2: "filename rp2 = filename rp"
    using filename_iseof [of ?rp1] by simp
  obtain e' rp3 where 2: "iseof rp2 = (e', rp3)" by (metis prod.exhaust)
  then have f3: "filename rp3 = filename rp2"
    using filename_iseof [of rp2] by simp
  show ?thesis
    by (simp add: open_file_def Let_def 1 2 f2 f3)
qed

lemma filename_iseof_eq: "iseof rp = (b, rp') \<Longrightarrow> filename rp' = filename rp"
  using filename_iseof [of rp] by simp

lemma filename_iseol_eq: "iseol rp = (b, rp') \<Longrightarrow> filename rp' = filename rp"
  using filename_iseol [of rp] by simp

lemma filename_readline [simp]: "filename (snd (readline rp)) = filename rp"
  by (auto simp: readline_def Let_def reset_def split: prod.splits if_splits
      dest!: filename_iseof_eq filename_iseol_eq)

lemma filename_read [simp]: "filename (snd (snd (read T check rp))) = filename rp"
  by (simp add: read_def Let_def split: prod.splits)

lemma filename_readvalue [simp]: "filename (snd (snd (readvalue T check g rp))) = filename rp"
proof -
  obtain r w rp1 where rd: "read T check rp = (r, w, rp1)" by (metis prod_cases3)
  then have f1: "filename rp1 = filename rp"
    using filename_read [of T check rp] by simp
  obtain b rp2 where ie: "iseol rp1 = (b, rp2)" by (metis prod.exhaust)
  then have "filename rp2 = filename rp1"
    using filename_iseol [of rp1] by simp
  with f1 show ?thesis
    by (simp add: readvalue_def rd ie Let_def)
qed

lemma filename_readvalues_loop:
  "filename (snd (snd (snd (readvalues_loop T n check i vals rp)))) = filename rp"
proof (induction T n check i vals rp rule: readvalues_loop.induct)
  case (1 T n check i vals rp)
  obtain b rp1 where ie: "iseol rp = (b, rp1)" by (metis prod.exhaust)
  then have f1: "filename rp1 = filename rp"
    using filename_iseol [of rp] by simp
  obtain r w rp2 where rd: "read T check rp1 = (r, w, rp2)" by (metis prod_cases3)
  then have f2: "filename rp2 = filename rp1"
    using filename_read [of T check rp1] by simp
  show ?case
  proof (cases "\<not> b \<and> i \<noteq> n \<and> r = Done \<and> w \<noteq> None")
    case True
    then obtain v where w: "w = Some v" by auto
    from True w have "readvalues_loop T n check i vals rp
        = readvalues_loop T n check (i + 1) (vals @ [v]) rp2"
      by (subst readvalues_loop.simps) (simp add: ie rd)
    moreover have "filename (snd (snd (snd (readvalues_loop T n check (i + 1) (vals @ [v]) rp2))))
        = filename rp2"
      using True w by (intro "1.IH" [OF ie [symmetric] refl _ _ rd [symmetric] refl _ refl]) simp_all
    ultimately show ?thesis
      using f1 f2 by simp
  next
    case False
    then show ?thesis
      using f1 f2
      by (subst readvalues_loop.simps) (auto simp: ie rd split: outcome.splits option.splits)
  qed
qed


lemma filename_readvalues [simp]:
  "filename (snd (snd (readvalues mem T n check checks vals rp))) = filename rp"
proof -
  obtain r i vs rp1 where l: "readvalues_loop T n check 0 [] rp = (r, i, vs, rp1)"
    by (metis prod_cases4)
  then have "filename rp1 = filename rp"
    using filename_readvalues_loop [of T n check 0 "[]" rp] by simp
  then show ?thesis
    by (simp add: readvalues_def l Let_def)
qed

lemma filename_close [simp]: "filename (close rp) = filename rp"
  by (simp add: close_def)

lemma filename_step [simp]: "filename (snd (snd (step fs mem g c rp))) = filename rp"
proof (cases c)
  case Open
  then show ?thesis by (simp split: prod.splits) (metis filename_open_file snd_conv)
next
  case Readline
  then show ?thesis by (simp split: prod.splits) (metis filename_readline snd_conv)
next
  case (Readvalue T check)
  then show ?thesis by (simp split: prod.splits) (metis filename_readvalue snd_conv)
next
  case (Readvalues T n check checks)
  then show ?thesis by (simp split: prod.splits) (metis filename_readvalues snd_conv)
next
  case Readerror
  then show ?thesis by simp
next
  case Close
  then show ?thesis by simp
qed

lemma read_Done_writes:
  assumes "fst (read T check rp) = Done"
  shows "\<exists>v. fst (snd (read T check rp)) = Some v"
  using read_cases [of T check rp] assms by auto

lemma readvalue_garbage:
  "fst (readvalue T check g rp) = fst (readvalue T check g' rp)"
  "snd (snd (readvalue T check g rp)) = snd (snd (readvalue T check g' rp))"
  "fst (readvalue T check g rp) = Done \<Longrightarrow>
     fst (snd (readvalue T check g rp)) = fst (snd (readvalue T check g' rp))"
proof -
  obtain r w rp1 where rd: "read T check rp = (r, w, rp1)" by (metis prod_cases3)
  obtain b rp2 where ie: "iseol rp1 = (b, rp2)" by (metis prod.exhaust)
  show "fst (readvalue T check g rp) = fst (readvalue T check g' rp)"
    and "snd (snd (readvalue T check g rp)) = snd (snd (readvalue T check g' rp))"
    by (simp_all add: readvalue_def rd ie Let_def)
  assume "fst (readvalue T check g rp) = Done"
  then have "r = Done"
    by (simp add: readvalue_def rd ie Let_def split: if_splits)
  with rd obtain v where "w = Some v"
    using read_Done_writes [of T check rp] by auto
  then show "fst (snd (readvalue T check g rp)) = fst (snd (readvalue T check g' rp))"
    by (simp add: readvalue_def rd ie Let_def assign_def)
qed

lemma readvalues_garbage:
  "fst (readvalues mem T n check checks vals rp) = fst (readvalues mem T n check checks vals' rp)"
  "snd (snd (readvalues mem T n check checks vals rp)) = snd (snd (readvalues mem T n check checks vals' rp))"
  "fst (readvalues mem T n check checks vals rp) = Done \<Longrightarrow>
     fst (snd (readvalues mem T n check checks vals rp)) = fst (snd (readvalues mem T n check checks vals' rp))"
  by (simp_all add: readvalues_def Let_def split: prod.splits if_splits)

lemma step_agree:
  assumes "fs1 (filename rp) = fs2 (filename rp)"
  shows "fst (step fs1 mem g1 c rp) = fst (step fs2 mem g2 c rp)"
    and "snd (snd (step fs1 mem g1 c rp)) = snd (snd (step fs2 mem g2 c rp))"
    and "fst (step fs1 mem g1 c rp) = Done \<Longrightarrow>
           fst (snd (step fs1 mem g1 c rp)) = fst (snd (step fs2 mem g2 c rp))"
proof -
  note opf = open_file_files [of fs1 rp fs2, OF assms]
  show "fst (step fs1 mem g1 c rp) = fst (step fs2 mem g2 c rp)"
    using readvalue_garbage(1) [of _ _ g1 rp g2] readvalues_garbage(1) [of _ _ _ _ _ "[g1]" rp "[g2]"]
    by (cases c) (simp_all add: opf case_prod_beta)
  show "snd (snd (step fs1 mem g1 c rp)) = snd (snd (step fs2 mem g2 c rp))"
    using readvalue_garbage(2) [of _ _ g1 rp g2] readvalues_garbage(2) [of _ _ _ _ _ "[g1]" rp "[g2]"]
    by (cases c) (simp_all add: opf case_prod_beta)
  show "fst (snd (step fs1 mem g1 c rp)) = fst (snd (step fs2 mem g2 c rp))"
    if "fst (step fs1 mem g1 c rp) = Done"
    using that readvalue_garbage(3) [of _ _ g1 rp g2] readvalues_garbage(3) [of _ _ _ _ _ "[g1]" rp "[g2]"]
    by (cases c) (simp_all add: opf case_prod_beta)
qed

lemma run_agree:
  assumes "fs1 (filename rp) = fs2 (filename rp)"
  shows "run fs1 mem g1 cs rp = run fs2 mem g2 cs rp"
  using assms
proof (induction cs arbitrary: rp)
  case Nil
  show ?case by simp
next
  case (Cons c cs)
  obtain r s rp' where s1: "step fs1 mem g1 c rp = (r, s, rp')" by (metis prod_cases3)
  obtain r2 s2 rp2 where s2: "step fs2 mem g2 c rp = (r2, s2, rp2)" by (metis prod_cases3)
  from step_agree [of fs1 rp fs2 mem g1 c g2, OF Cons.prems] s1 s2
  have eq: "r2 = r" "rp2 = rp'" and st: "r = Done \<Longrightarrow> s2 = s"
    by simp_all
  from s1 have "filename rp' = filename rp"
    using filename_step [of fs1 mem g1 c rp] by simp
  with Cons.prems have "fs1 (filename rp') = fs2 (filename rp')"
    by simp
  then have ih: "run fs1 mem g1 cs rp' = run fs2 mem g2 cs rp'"
    by (rule Cons.IH)
  show ?case
    using st by (cases r) (simp_all add: s1 s2 eq ih)
qed

lemma parse_double_4: "parse_double ''4'' = Some 4"
  by code_simp

lemma to_string_2: "to_string 2 = ''2''"
  by code_simp

lemma example_run:
  "run [''parameters.txt'' \<mapsto> example_content] (\<lambda>_ _. True) (IntV 0) example_calls (new_ReadPars ''parameters.txt'')
     = ([Scalar (IntV 4),
         Vector [DoubleV 1, DoubleV (5404319552844595 / 4503599627370496), DoubleV (7 / 2), DoubleV 2]],
        Done, 2)"
proof -
  let ?fs = "[''parameters.txt'' \<mapsto> example_content]"
  let ?s0 = "new_ReadPars ''parameters.txt''"
  let ?s1 = "?s0\<lparr>infile := \<lparr>rest = example_content, eofbit = False, failbit = False\<rparr>, is_open := True\<rparr>"
  let ?s2 = "\<lparr>filename = ''parameters.txt'',
      infile = \<lparr>rest = ''genes 1.0 1.2 3.5 2.0'', eofbit = False, failbit = False\<rparr>,
      is_open = True, count = 1, empty = False, comment = False,
      line = \<lparr>rest = '' 4'', eofbit = False, failbit = False\<rparr>,
      line_str = ''ngenes 4'', name = ''ngenes''\<rparr>"
  let ?s3 = "\<lparr>filename = ''parameters.txt'',
      infile = \<lparr>rest = ''genes 1.0 1.2 3.5 2.0'', eofbit = False, failbit = False\<rparr>,
      is_open = True, count = 1, empty = False, comment = False,
      line = \<lparr>rest = [], eofbit = True, failbit = True\<rparr>,
      line_str = ''ngenes 4'', name = ''ngenes''\<rparr>"
  let ?s4 = "\<lparr>filename = ''parameters.txt'',
      infile = \<lparr>rest = [], eofbit = True, failbit = False\<rparr>,
      is_open = True, count = 2, empty = False, comment = False,
      line = \<lparr>rest = '' 1.0 1.2 3.5 2.0'', eofbit = False, failbit = False\<rparr>,
      line_str = ''genes 1.0 1.2 3.5 2.0'', name = ''genes''\<rparr>"
  let ?s5 = "\<lparr>filename = ''parameters.txt'',
      infile = \<lparr>rest = [], eofbit = True, failbit = False\<rparr>,
      is_open = True, count = 2, empty = False, comment = False,
      line = \<lparr>rest = [], eofbit = True, failbit = True\<rparr>,
      line_str = ''genes 1.0 1.2 3.5 2.0'', name = ''genes''\<rparr>"
  let ?vs = "[DoubleV 1, DoubleV (5404319552844595 / 4503599627370496), DoubleV (7 / 2), DoubleV 2]"
  have 1: "open_file ?fs ?s0 = (Done, ?s1)"
    by (simp add: open_file_def ifstream_open_def new_ReadPars_def new_istream_def isopen_def
          iseof_def peek_def good_def example_content_def)
  have 2: "readline ?s1 = (Done, ?s2)"
    by (simp add: example_content_def eval_defs)
  have g2: "good (line ?s2)" "rest (line ?s2) = '' '' @ ''4'' @ []"
    by (simp_all add: good_def)
  have t2: "blank '' ''" "token ''4''" "delimited []" "\<not> invalid_char ''4''"
    by (simp_all add: token_defs)
  have c2: "convert TInt (Some checkstrictpos) ?s2 ''4'' = (Done, Some (IntV 4))"
    by (simp add: convert_def parse_double_4 isfinite_def trunc_def checkstrictpos_def checkerror_def)
  have 3: "readvalue TInt (Some checkstrictpos) (IntV 0) ?s2 = (Done, IntV 4, ?s3)"
    using t2(4) by (simp add: readvalue_token [OF g2 t2(1,2,3)] c2 assign_def del: invalid_char.simps)
  have 4: "readline ?s3 = (Done, ?s4)"
    by (simp add: eval_defs)
  have g4: "ready (line ?s4)"
    "rest (line ?s4) = join [('' '', ''1.0''), ('' '', ''1.2''), ('' '', ''3.5''), ('' '', ''2.0'')]"
    by (simp_all add: ready_def)
  have c4: "list_all2 (clean TDouble (Some checkstrictpos) ?s4)
      (map snd [('' '', ''1.0''), ('' '', ''1.2''), ('' '', ''3.5''), ('' '', ''2.0'')]) ?vs"
    by (simp add: clean_double parse_double_genes checkstrictpos_def isalnum_def isdigit_def)
  have le: "(4 :: 64 word) \<noteq> 0"
    "length [('' '', ''1.0''), ('' '', ''1.2''), ('' '', ''3.5''), ('' '', ''2.0'')] \<le> unat (4 :: 64 word)"
    "reserved (\<lambda>_ _. True) TDouble 4"
    by (simp_all add: reserved_def)
  have 5: "readvalues (\<lambda>_ _. True) TDouble 4 (Some checkstrictpos) None [IntV 0] ?s4 = (Done, ?vs, ?s5)"
    by (simp add: readvalues_all [OF g4 genes_tokens(1) c4 le] checkerror_def)
  have 6: "getcount (close ?s5) = 2"
    by (simp add: close_def getcount_def)
  show ?thesis
    by (simp add: example_calls_def 1 2 3 4 5 6)
qed

text \<open>
  C9: two freshly constructed readers of the same path make the same sequence of calls,
  each on its own system; the two systems agree on the content of the file at that path
  and on the memory they have for the vectors, and may differ in every other file, and
  so may the garbage in the uninitialised destinations. Then the two runs store the same values, end with the same outcome and
  with the same line count. (The statement is made for runs that do not end in
  undefined behaviour, the conversion of a value out of the range of the destination
  type: there the language promises nothing.)
\<close>

theorem run_deterministic:
  assumes "fs1 path = fs2 path"
    and "fst (snd (run fs1 mem g1 calls (new_ReadPars path))) \<noteq> Undefined"
  shows "run fs2 mem g2 calls (new_ReadPars path) = run fs1 mem g1 calls (new_ReadPars path)"
proof -
  have "filename (new_ReadPars path) = path"
    by (simp add: new_ReadPars_def)
  with assms(1) have "fs1 (filename (new_ReadPars path)) = fs2 (filename (new_ReadPars path))"
    by simp
  then show ?thesis
    using run_agree [of fs1 "new_ReadPars path" fs2 mem g1 calls g2] by simp
qed

text \<open>
  The witness runs the calls of the example program on the example file, on a system
  that holds a second file and with other garbage in the destinations.
\<close>

theorem run_deterministic_witness:
  "run ([''parameters.txt'' \<mapsto> example_content, ''other.txt'' \<mapsto> ''x 1'']) (\<lambda>_ _. True)
       (DoubleV 7) example_calls
       (new_ReadPars ''parameters.txt'')
     = ([Scalar (IntV 4),
         Vector [DoubleV 1, DoubleV (5404319552844595 / 4503599627370496), DoubleV (7 / 2), DoubleV 2]],
        Done, 2)"
proof -
  let ?fs1 = "[''parameters.txt'' \<mapsto> example_content]"
  let ?fs2 = "[''parameters.txt'' \<mapsto> example_content, ''other.txt'' \<mapsto> ''x 1'']"
  have same: "?fs1 ''parameters.txt'' = ?fs2 ''parameters.txt''"
    by simp
  have defined: "fst (snd (run ?fs1 (\<lambda>_ _. True) (IntV 0) example_calls
                             (new_ReadPars ''parameters.txt''))) \<noteq> Undefined"
    by (simp add: example_run)
  from run_deterministic [of ?fs1 "''parameters.txt''" ?fs2 "\<lambda>_ _. True" "IntV 0" example_calls "DoubleV 7",
         OF same defined]
  show ?thesis
    by (simp only: example_run)
qed

end
